theory Spec2Isabelle
  imports Main
begin

section \<open>Lane type and lane vectors\<close>

text \<open>
  The aligner class template \<open>AlignerT\<close> (parameters \<open>native_t\<close>, \<open>N\<close>, \<open>END_TO_END\<close>, \<open>AUX\<close>) is instantiated at the
  signed 8 bit and 16 bit lane types (\<open>Aligner\<close>, \<open>WordAligner\<close>, \<open>AlignerETE\<close>,
  \<open>WordAlignerETE\<close>).  The development covers the instantiations with \<open>AUX = true\<close>.
  Private members of the class are written with a trailing underscore
  (\<open>_bias\<close> becomes \<open>m_bias\<close>).
\<close>

datatype native_t = Int8 | Int16

fun lane_bits :: "native_t \<Rightarrow> nat" where
  "lane_bits Int8 = 8"
| "lane_bits Int16 = 16"

definition lane_min :: "native_t \<Rightarrow> int" where
  "lane_min nt = - (2 ^ (lane_bits nt - 1))"

definition lane_max :: "native_t \<Rightarrow> int" where
  "lane_max nt = 2 ^ (lane_bits nt - 1) - 1"

text \<open>Conversions of C++ integer arithmetic: \<open>size_t\<close> (64 bit), \<open>unsigned int\<close>
  (32 bit), \<open>uint8_t\<close>, and the narrowing conversion to the signed lane type.\<close>

definition size_t :: "int \<Rightarrow> int" where
  "size_t x = x mod 2 ^ 64"

definition unsigned_int :: "int \<Rightarrow> int" where
  "unsigned_int x = x mod 2 ^ 32"

definition uint8_t :: "int \<Rightarrow> int" where
  "uint8_t x = x mod 2 ^ 8"

definition to_native :: "native_t \<Rightarrow> int \<Rightarrow> int" where
  "to_native nt x = (x + 2 ^ (lane_bits nt - 1)) mod 2 ^ lane_bits nt - 2 ^ (lane_bits nt - 1)"

type_synonym simd_t = "int list"

text \<open>Modelled from the spec: the lane vector type \<open>SIMD\<close> of \<open>simd.h\<close>, which
  is not part of the sources at hand.  A vector has exactly \<open>N\<close> lanes; addition and
  subtraction saturate at the bounds of the lane type; maximum, comparison and blend are
  lanewise; a scalar is converted to the lane type and broadcast to every lane; \<open>any\<close> tests whether some lane of a
  mask is set; \<open>insert\<close> and \<open>at\<close> access one lane.\<close>

definition sat :: "native_t \<Rightarrow> int \<Rightarrow> int" where
  "sat nt x = max (lane_min nt) (min (lane_max nt) x)"

definition lanewise :: "nat \<Rightarrow> ('a \<Rightarrow> 'b \<Rightarrow> 'c) \<Rightarrow> 'a list \<Rightarrow> 'b list \<Rightarrow> 'c list" where
  "lanewise n f a b = map (\<lambda>i. f (a ! i) (b ! i)) [0..<n]"

definition splat :: "nat \<Rightarrow> 'a \<Rightarrow> 'a list" where
  "splat n x = replicate n x"

definition broadcast :: "native_t \<Rightarrow> nat \<Rightarrow> int \<Rightarrow> simd_t" where
  "broadcast nt n x = splat n (to_native nt x)"

definition vadd :: "native_t \<Rightarrow> nat \<Rightarrow> simd_t \<Rightarrow> simd_t \<Rightarrow> simd_t" where
  "vadd nt n a b = lanewise n (\<lambda>x y. sat nt (x + y)) a b"

definition vsub :: "native_t \<Rightarrow> nat \<Rightarrow> simd_t \<Rightarrow> simd_t \<Rightarrow> simd_t" where
  "vsub nt n a b = lanewise n (\<lambda>x y. sat nt (x - y)) a b"

definition vmax :: "nat \<Rightarrow> simd_t \<Rightarrow> simd_t \<Rightarrow> simd_t" where
  "vmax n a b = lanewise n max a b"

definition veq :: "nat \<Rightarrow> 'a list \<Rightarrow> 'a list \<Rightarrow> bool list" where
  "veq n a b = lanewise n (\<lambda>x y. x = y) a b"

definition vgt :: "nat \<Rightarrow> simd_t \<Rightarrow> simd_t \<Rightarrow> bool list" where
  "vgt n a b = lanewise n (\<lambda>x y. x > y) a b"

definition vlt :: "nat \<Rightarrow> simd_t \<Rightarrow> simd_t \<Rightarrow> bool list" where
  "vlt n a b = lanewise n (\<lambda>x y. x < y) a b"

definition vand :: "nat \<Rightarrow> bool list \<Rightarrow> bool list \<Rightarrow> bool list" where
  "vand n a b = lanewise n (\<lambda>x y. x \<and> y) a b"

definition blend :: "nat \<Rightarrow> bool list \<Rightarrow> simd_t \<Rightarrow> simd_t \<Rightarrow> simd_t" where
  "blend n m a b = map (\<lambda>i. if m ! i then a ! i else b ! i) [0..<n]"

definition any :: "bool list \<Rightarrow> bool" where
  "any m = (True \<in> set m)"

section \<open>Scoring profile and aligner object\<close>

text \<open>Modelled from the spec: the fields of \<open>ScoreProfile\<close> (declared in \<open>scoring.h\<close>,
  which is not part of the sources at hand): match, mismatch, ambig, the two pairs of
  affine gap penalties, the end-to-end flag and the correctness tolerance.\<close>

record ScoreProfile =
  match :: nat
  mismatch :: nat
  ambig :: nat
  read_gopen :: nat
  read_gext :: nat
  ref_gopen :: nat
  ref_gext :: nat
  end_to_end :: bool
  tol :: nat

text \<open>Modelled from the spec: the base alphabet \<open>rg::Base\<close> (declared in \<open>utils.h\<close>).\<close>

datatype Base = A | C | G | T | N

text \<open>The ways in which a call does not return a result: the exception of \<open>_get_bias\<close>
  ("Insufficient bit-width for given match score and read length"), the exception of
  \<open>_get_seed\<close> ("Invalid node ordering"), a failed \<open>assert\<close>, and behaviour that the
  language leaves undefined (a read past the end of an array, an empty range that is
  dereferenced).\<close>

datatype error = InsufficientPrecision | GraphOrder | AssertionFailed | Undefined

text \<open>The members \<open>_max_pos\<close>, \<open>_sub_pos\<close>, \<open>_max_count\<close>, \<open>_sub_count\<close>, \<open>_cor_flag\<close>,
  \<open>_targets_lower_ptr\<close> and \<open>_targets_upper_ptr\<close> point into arrays at the offset of the
  current batch; the record holds the \<open>N\<close> entries behind each pointer.\<close>

record tracker =
  m_max_score :: simd_t
  m_sub_score :: simd_t
  m_max_pos :: "int list"
  m_sub_pos :: "int list"
  m_max_count :: "int list"
  m_sub_count :: "int list"
  m_cor_flag :: "nat list"
  m_targets_lower_ptr :: "int list"
  m_targets_upper_ptr :: "int list"

record target =
  idx :: nat
  score :: int
  pos :: int

record AlignerT =
  native :: native_t
  lanes :: nat
  END_TO_END :: bool
  m_read_len :: nat
  m_bias :: int
  m_prof :: ScoreProfile
  m_match_vec :: simd_t
  m_mismatch_vec :: simd_t
  m_ambig_vec :: simd_t
  m_gap_open_extend_vec_rd :: simd_t
  m_gap_extend_vec_rd :: simd_t
  m_gap_open_extend_vec_ref :: simd_t
  m_gap_extend_vec_ref :: simd_t
  m_Sd :: simd_t
  m_packaged_reads :: "Base list list"
  m_S :: "simd_t list"
  m_Dc :: "simd_t list"
  m_Ic :: "simd_t list"
  m_trk :: tracker
  m_target_subrange :: "target list"

definition DEFAULT_TOL_FACTOR :: nat where
  "DEFAULT_TOL_FACTOR = 4"

text \<open>\<open>_get_bias\<close>: the only check that throws compares \<open>read_len * match\<close> (a
  \<open>size_t\<close> product) with the width of the lane type.\<close>

definition get_bias :: "native_t \<Rightarrow> bool \<Rightarrow> nat \<Rightarrow> nat \<Rightarrow> nat \<Rightarrow> nat \<Rightarrow> nat \<Rightarrow> error + int" where
  "get_bias nt ete read_len mtch mism gopen gext =
     (if size_t (int read_len * uint8_t (int mtch)) > lane_max nt - lane_min nt
      then Inl InsufficientPrecision
      else if \<not> ete then Inr (lane_min nt)
      else Inr (to_native nt
             (unsigned_int (size_t (lane_max nt - size_t (int read_len * uint8_t (int mtch)))))))"

text \<open>The condition under which \<open>_get_bias\<close> prints its warning "Possibility of score
  saturation with parameters in end-to-end mode" (once per process) and goes on.\<close>

definition saturation_warning :: "native_t \<Rightarrow> bool \<Rightarrow> nat \<Rightarrow> nat \<Rightarrow> nat \<Rightarrow> nat \<Rightarrow> nat \<Rightarrow> bool" where
  "saturation_warning nt ete read_len mtch mism gopen gext =
     (let b = unsigned_int (size_t (lane_max nt - size_t (int read_len * uint8_t (int mtch))))
      in ete \<and> \<not> size_t (int read_len * uint8_t (int mtch)) > lane_max nt - lane_min nt \<and>
         (size_t (uint8_t (int gopen) + size_t (uint8_t (int gext) * size_t (int read_len - 1))) > b
          \<or> size_t (int read_len * uint8_t (int mism)) > b))"

definition set_correctness_tolerance :: "nat \<Rightarrow> AlignerT \<Rightarrow> AlignerT" where
  "set_correctness_tolerance t al = al\<lparr>m_prof := (m_prof al)\<lparr>tol := t\<rparr>\<rparr>"

definition tolerance :: "AlignerT \<Rightarrow> nat" where
  "tolerance al = tol (m_prof al)"

text \<open>\<open>set_scores\<close>.  The scalars of the profile are \<open>uint8_t\<close> values; the sums and
  negations are computed in \<open>int\<close> and narrowed to the lane type when they are assigned to
  a vector.\<close>

definition set_scores :: "ScoreProfile \<Rightarrow> AlignerT \<Rightarrow> error + AlignerT" where
  "set_scores p al =
     (case get_bias (native al) (END_TO_END al) (m_read_len al)
             (match p) (mismatch p) (read_gopen p) (read_gext p) of
        Inl e \<Rightarrow> Inl e
      | Inr b \<Rightarrow>
          Inr (set_correctness_tolerance (tol p)
            (al\<lparr>m_prof := p\<lparr>end_to_end := END_TO_END al\<rparr>,
                m_match_vec := broadcast (native al) (lanes al) (int (match p)),
                m_mismatch_vec := broadcast (native al) (lanes al) (- int (mismatch p)),
                m_gap_open_extend_vec_rd :=
                  broadcast (native al) (lanes al) (int (read_gopen p) + int (read_gext p)),
                m_gap_extend_vec_rd := broadcast (native al) (lanes al) (int (read_gext p)),
                m_gap_open_extend_vec_ref :=
                  broadcast (native al) (lanes al) (int (ref_gopen p) + int (ref_gext p)),
                m_gap_extend_vec_ref := broadcast (native al) (lanes al) (int (ref_gext p)),
                m_ambig_vec := broadcast (native al) (lanes al) (- int (ambig p)),
                m_bias := b,
                m_Dc := (m_Dc al)[0 := splat (lanes al) b]\<rparr>)))"

text \<open>The constructor \<open>AlignerT(read_len, prof)\<close>.  The columns \<open>_S\<close>, \<open>_Dc\<close>, \<open>_Ic\<close>
  get \<open>read_len + 1\<close> rows and the packaged reads \<open>read_len\<close> rows; their content is
  not initialised by the source and is written before it is read, zero stands for it.\<close>

definition new_tracker :: "nat \<Rightarrow> tracker" where
  "new_tracker n =
     \<lparr>m_max_score = splat n 0, m_sub_score = splat n 0, m_max_pos = replicate n 0,
      m_sub_pos = replicate n 0, m_max_count = replicate n 0, m_sub_count = replicate n 0,
      m_cor_flag = replicate n 0, m_targets_lower_ptr = replicate n 0,
      m_targets_upper_ptr = replicate n 0\<rparr>"

definition AlignerT_init :: "native_t \<Rightarrow> nat \<Rightarrow> bool \<Rightarrow> nat \<Rightarrow> ScoreProfile \<Rightarrow> AlignerT" where
  "AlignerT_init nt n ete read_len p =
     \<lparr>native = nt, lanes = n, END_TO_END = ete, m_read_len = read_len, m_bias = 0, m_prof = p,
      m_match_vec = splat n 0, m_mismatch_vec = splat n 0, m_ambig_vec = splat n 0,
      m_gap_open_extend_vec_rd = splat n 0, m_gap_extend_vec_rd = splat n 0,
      m_gap_open_extend_vec_ref = splat n 0, m_gap_extend_vec_ref = splat n 0,
      m_Sd = splat n 0,
      m_packaged_reads = replicate read_len (splat n N),
      m_S = replicate (read_len + 1) (splat n 0),
      m_Dc = replicate (read_len + 1) (splat n 0),
      m_Ic = replicate (read_len + 1) (splat n 0),
      m_trk = new_tracker n,
      m_target_subrange = replicate (n + 1) \<lparr>idx = 0, score = 0, pos = 0\<rparr>\<rparr>"

definition AlignerT_ctor :: "native_t \<Rightarrow> nat \<Rightarrow> bool \<Rightarrow> nat \<Rightarrow> ScoreProfile \<Rightarrow> error + AlignerT" where
  "AlignerT_ctor nt n ete read_len p =
     (case set_scores p (AlignerT_init nt n ete read_len p) of
        Inl e \<Rightarrow> Inl e
      | Inr al \<Rightarrow> Inr (set_correctness_tolerance (read_len div DEFAULT_TOL_FACTOR) al))"

section \<open>Seeds\<close>

record seed =
  S_col :: "simd_t list"
  I_col :: "simd_t list"

text \<open>\<open>_seed_matrix\<close>: every row is the bias; in end-to-end mode row \<open>i + 1\<close> then
  loses \<open>read_gopen\<close> and the \<open>size_t\<close> product \<open>i * read_gext\<close>, each converted to the
  lane type and subtracted with saturation.\<close>

definition seed_matrix :: "AlignerT \<Rightarrow> seed \<Rightarrow> seed" where
  "seed_matrix al sd =
     (let n = lanes al;
          s0 = map (\<lambda>_. splat n (m_bias al)) (S_col sd);
          s1 = (if END_TO_END al
                then fold (\<lambda>i s. s[i + 1 :=
                        vsub (native al) n
                          (vsub (native al) n (s ! (i + 1))
                             (broadcast (native al) n (int (read_gopen (m_prof al)))))
                          (broadcast (native al) n (size_t (int i * int (read_gext (m_prof al)))))])
                      [0..<m_read_len al] s0
                else s0)
      in sd\<lparr>S_col := s1, I_col := s1\<rparr>)"

text \<open>\<open>_get_seed\<close>: the inner loop over the predecessor identifiers; \<open>seed_map.at(id)\<close>
  throws for an absent identifier, and the handler rethrows "Invalid node ordering".\<close>

fun get_seed_ids :: "nat \<Rightarrow> (nat \<rightharpoonup> seed) \<Rightarrow> nat \<Rightarrow> nat list \<Rightarrow> seed \<Rightarrow> error + seed" where
  "get_seed_ids n seed_map i [] sd = Inr sd"
| "get_seed_ids n seed_map i (ident # ids) sd =
     (case seed_map ident of
        None \<Rightarrow> Inl GraphOrder
      | Some s \<Rightarrow>
          get_seed_ids n seed_map i ids
            (sd\<lparr>S_col := (S_col sd)[i := vmax n (S_col sd ! i) (S_col s ! i)],
                I_col := (I_col sd)[i := vmax n (I_col sd ! i) (I_col s ! i)]\<rparr>))"

fun get_seed_rows :: "AlignerT \<Rightarrow> nat list \<Rightarrow> (nat \<rightharpoonup> seed) \<Rightarrow> nat list \<Rightarrow> seed \<Rightarrow> error + seed" where
  "get_seed_rows al prev_ids seed_map [] sd = Inr sd"
| "get_seed_rows al prev_ids seed_map (i # rows) sd =
     (case get_seed_ids (lanes al) seed_map i prev_ids
             (sd\<lparr>S_col := (S_col sd)[i := splat (lanes al) (m_bias al)],
                 I_col := (I_col sd)[i := splat (lanes al) (m_bias al)]\<rparr>) of
        Inl e \<Rightarrow> Inl e
      | Inr sd' \<Rightarrow> get_seed_rows al prev_ids seed_map rows sd')"

definition get_seed :: "AlignerT \<Rightarrow> nat list \<Rightarrow> (nat \<rightharpoonup> seed) \<Rightarrow> seed \<Rightarrow> error + seed" where
  "get_seed al prev_ids seed_map sd =
     get_seed_rows al prev_ids seed_map [1..<m_read_len al + 1] sd"

section \<open>Score tracker\<close>

text \<open>The four per-lane loop bodies of \<open>_fill_cell_finish\<close>, in the order of the source.
  Reference positions are \<open>size_t\<close> values, written as integers; the sum of a
  position and the read length is a \<open>size_t\<close> sum.\<close>

definition in_window :: "tracker \<Rightarrow> nat \<Rightarrow> int \<Rightarrow> bool" where
  "in_window tr i curr_pos =
     (curr_pos \<ge> m_targets_lower_ptr tr ! i \<and> curr_pos \<le> m_targets_upper_ptr tr ! i)"

definition equal_max_lane :: "nat \<Rightarrow> int \<Rightarrow> nat \<Rightarrow> tracker \<Rightarrow> tracker" where
  "equal_max_lane rl curr_pos i tr =
     (let tr1 = (if curr_pos > size_t (m_max_pos tr ! i + int rl)
                 then tr\<lparr>m_max_count := (m_max_count tr)[i := m_max_count tr ! i + 1]\<rparr>
                 else tr);
          tr2 = tr1\<lparr>m_max_pos := (m_max_pos tr1)[i := curr_pos]\<rparr>
      in if in_window tr2 i curr_pos
         then tr2\<lparr>m_cor_flag := (m_cor_flag tr2)[i := 1]\<rparr>
         else tr2)"

definition new_max_lane :: "nat \<Rightarrow> int \<Rightarrow> nat \<Rightarrow> tracker \<Rightarrow> tracker" where
  "new_max_lane rl curr_pos i tr =
     (let tr1 = (if curr_pos > size_t (m_max_pos tr ! i + int rl)
                 then tr\<lparr>m_sub_score := (m_sub_score tr)[i := m_max_score tr ! i],
                         m_sub_pos := (m_sub_pos tr)[i := m_max_pos tr ! i],
                         m_sub_count := (m_sub_count tr)[i := m_max_count tr ! i],
                         m_cor_flag := (m_cor_flag tr)[i := (if m_cor_flag tr ! i = 1 then 2 else 0)]\<rparr>
                 else tr);
          tr2 = tr1\<lparr>m_max_count := (m_max_count tr1)[i := 1]\<rparr>;
          tr3 = tr2\<lparr>m_max_pos := (m_max_pos tr2)[i := curr_pos]\<rparr>
      in if in_window tr3 i curr_pos
         then tr3\<lparr>m_cor_flag := (m_cor_flag tr3)[i := 1]\<rparr>
         else if m_cor_flag tr3 ! i = 1
         then tr3\<lparr>m_cor_flag := (m_cor_flag tr3)[i := 0]\<rparr>
         else tr3)"

definition equal_sub_lane :: "nat \<Rightarrow> int \<Rightarrow> nat \<Rightarrow> tracker \<Rightarrow> tracker" where
  "equal_sub_lane rl curr_pos i tr =
     (if curr_pos > size_t (m_max_pos tr ! i + int rl)
      then (let tr1 = tr\<lparr>m_sub_count := (m_sub_count tr)[i := m_sub_count tr ! i +
                           (if curr_pos > size_t (m_sub_pos tr ! i + int rl) then 1 else 0)]\<rparr>;
                tr2 = tr1\<lparr>m_sub_pos := (m_sub_pos tr1)[i := curr_pos]\<rparr>
            in if in_window tr2 i curr_pos
               then tr2\<lparr>m_cor_flag := (m_cor_flag tr2)[i := 2]\<rparr>
               else tr2)
      else tr)"

definition new_sub_lane :: "simd_t \<Rightarrow> nat \<Rightarrow> int \<Rightarrow> nat \<Rightarrow> tracker \<Rightarrow> tracker" where
  "new_sub_lane s rl curr_pos i tr =
     (if curr_pos > size_t (m_max_pos tr ! i + int rl)
      then (let tr1 = tr\<lparr>m_sub_score := (m_sub_score tr)[i := s ! i]\<rparr>;
                tr2 = tr1\<lparr>m_sub_count := (m_sub_count tr1)[i := 1]\<rparr>;
                tr3 = tr2\<lparr>m_sub_pos := (m_sub_pos tr2)[i := curr_pos]\<rparr>
            in if in_window tr3 i curr_pos
               then tr3\<lparr>m_cor_flag := (m_cor_flag tr3)[i := 2]\<rparr>
               else tr3\<lparr>m_cor_flag := (m_cor_flag tr3)[i := (if m_cor_flag tr3 ! i = 1 then 1 else 0)]\<rparr>)
      else tr)"

text \<open>The loop \<open>for (i = 0; i < read_capacity(); ++i) if (_tmp0.at(i)) ...\<close>, entered
  only when some lane of the mask is set.\<close>

definition masked_lanes :: "nat \<Rightarrow> bool list \<Rightarrow> (nat \<Rightarrow> tracker \<Rightarrow> tracker) \<Rightarrow> tracker \<Rightarrow> tracker" where
  "masked_lanes n tmp0 body tr = fold (\<lambda>i t. if tmp0 ! i then body i t else t) [0..<n] tr"

definition track_cell :: "nat \<Rightarrow> nat \<Rightarrow> simd_t \<Rightarrow> int \<Rightarrow> tracker \<Rightarrow> tracker" where
  "track_cell n rl s curr_pos tr0 =
     (let m1 = veq n s (m_max_score tr0);
          tr1 = (if any m1 then masked_lanes n m1 (equal_max_lane rl curr_pos) tr0 else tr0);
          m2 = vgt n s (m_max_score tr1);
          tr2 = (if any m2
                 then masked_lanes n m2 (new_max_lane rl curr_pos)
                        (tr1\<lparr>m_max_score := vmax n s (m_max_score tr1)\<rparr>)
                 else tr1);
          m3 = veq n s (m_sub_score tr2);
          tr3 = (if any m3 then masked_lanes n m3 (equal_sub_lane rl curr_pos) tr2 else tr2);
          m4 = vand n (vgt n s (m_sub_score tr3)) (vlt n s (m_max_score tr3))
      in if any m4 then masked_lanes n m4 (new_sub_lane s rl curr_pos) tr3 else tr3)"

definition fill_cell_finish :: "nat \<Rightarrow> int \<Rightarrow> AlignerT \<Rightarrow> AlignerT" where
  "fill_cell_finish row curr_pos al =
     al\<lparr>m_trk := track_cell (lanes al) (m_read_len al) (m_S al ! row) curr_pos (m_trk al)\<rparr>"

section \<open>Filling a node\<close>

definition fill_cell :: "Base list \<Rightarrow> Base \<Rightarrow> nat \<Rightarrow> int \<Rightarrow> AlignerT \<Rightarrow> AlignerT" where
  "fill_cell read ref row curr_pos al =
     (let n = lanes al; nt = native al;
          al1 = al\<lparr>m_Dc := (m_Dc al)[row :=
                   vmax n (vsub nt n (m_Dc al ! (row - 1)) (m_gap_extend_vec_ref al))
                          (vsub nt n (m_S al ! (row - 1)) (m_gap_open_extend_vec_ref al))]\<rparr>;
          al2 = al1\<lparr>m_Ic := (m_Ic al1)[row :=
                   vmax n (vsub nt n (m_Ic al1 ! row) (m_gap_extend_vec_rd al1))
                          (vsub nt n (m_S al1 ! row) (m_gap_open_extend_vec_rd al1))]\<rparr>;
          sr = (if ref \<noteq> N
                then vadd nt n (m_Sd al2)
                       (blend n (veq n read (splat n N)) (m_ambig_vec al2)
                          (blend n (veq n read (splat n ref)) (m_match_vec al2) (m_mismatch_vec al2)))
                else vadd nt n (m_Sd al2) (m_ambig_vec al2));
          al3 = al2\<lparr>m_Sd := m_S al2 ! row\<rparr>;
          al4 = al3\<lparr>m_S := (m_S al3)[row := vmax n (m_Ic al3 ! row) (vmax n (m_Dc al3 ! row) sr)]\<rparr>
      in if \<not> END_TO_END al then fill_cell_finish row curr_pos al4 else al4)"

text \<open>The two loops over \<open>_target_subrange\<close> in \<open>_fill_node\<close>.  The source does not
  compare \<open>csp\<close> with the size of the array, which has \<open>N + 1\<close> entries; a loop that
  reaches the end of the array reads past it, and the model returns \<open>None\<close> there.\<close>

function skip_targets :: "target list \<Rightarrow> int \<Rightarrow> nat \<Rightarrow> nat option" where
  "skip_targets tsub curr_pos csp =
     (if csp < length tsub
      then (if pos (tsub ! csp) < curr_pos
            then skip_targets tsub curr_pos (csp + 1)
            else Some csp)
      else None)"
  by pat_completeness auto
termination
  by (relation "measure (\<lambda>(tsub, curr_pos, csp). length tsub - csp)") auto

function record_targets ::
  "bool \<Rightarrow> nat \<Rightarrow> simd_t list \<Rightarrow> int \<Rightarrow> nat \<Rightarrow> target list \<Rightarrow> (nat \<times> target list) option" where
  "record_targets ete rl s curr_pos csp tsub =
     (if csp < length tsub
      then (if pos (tsub ! csp) = curr_pos
            then record_targets ete rl s curr_pos (csp + 1)
                   (tsub[csp := (tsub ! csp)\<lparr>score :=
                      fold (\<lambda>q sc. max sc (s ! q ! idx (tsub ! csp)))
                           [(if ete then rl else 1)..<rl + 1] (score (tsub ! csp))\<rparr>])
            else Some (csp, tsub))
      else None)"
  by pat_completeness auto
termination
  by (relation "measure (\<lambda>(ete, rl, s, curr_pos, csp, tsub). length tsub - csp)") auto

declare skip_targets.simps [simp del] record_targets.simps [simp del]

text \<open>The loop \<open>for (r = 0; r < _read_len; ++r) _fill_cell(read_ptr[r], node_seq[c], r + 1,
  curr_pos)\<close> over the rows of one column, and the column itself.\<close>

fun fill_rows :: "Base \<Rightarrow> int \<Rightarrow> nat list \<Rightarrow> AlignerT \<Rightarrow> AlignerT" where
  "fill_rows ref curr_pos [] al = al"
| "fill_rows ref curr_pos (r # rs) al =
     fill_rows ref curr_pos rs (fill_cell (m_packaged_reads al ! r) ref (r + 1) curr_pos al)"

definition fill_column :: "Base \<Rightarrow> int \<Rightarrow> AlignerT \<Rightarrow> AlignerT" where
  "fill_column ref curr_pos al =
     (let al1 = al\<lparr>m_Sd := splat (lanes al) (m_bias al)\<rparr>;
          al2 = fill_rows ref curr_pos [0..<m_read_len al] al1
      in if END_TO_END al then fill_cell_finish (m_read_len al) curr_pos al2 else al2)"

text \<open>The loop over the columns of a node; \<open>Undefined\<close> stands for a read past the end of
  \<open>_target_subrange\<close>.\<close>

fun fill_columns :: "Base list \<Rightarrow> int \<Rightarrow> nat \<Rightarrow> AlignerT \<Rightarrow> error + AlignerT" where
  "fill_columns [] curr_pos csp al = Inr al"
| "fill_columns (ref # rest) curr_pos csp al =
     (let al1 = fill_column ref curr_pos al
      in case record_targets (END_TO_END al1) (m_read_len al1) (m_S al1)
                curr_pos csp (m_target_subrange al1) of
           None \<Rightarrow> Inl Undefined
         | Some r \<Rightarrow>
             fill_columns rest (size_t (curr_pos + 1)) (fst r) (al1\<lparr>m_target_subrange := snd r\<rparr>))"

text \<open>Modelled from the spec: what the node iterator of \<open>graph.h\<close> shows of a node: its
  identifier, the position of its last base (\<open>end_pos\<close>, which the aligner turns into the
  1-indexed position of the first base by \<open>end_pos - size + 2\<close>), its sequence, the
  identifiers of its predecessors and the pinched flag.\<close>

record node =
  ident :: nat
  end_pos :: int
  seq :: "Base list"
  incoming :: "nat list"
  is_pinched :: bool

definition first_pos :: "node \<Rightarrow> int" where
  "first_pos nd = size_t (end_pos nd - int (length (seq nd)) + 2)"

definition fill_node :: "node \<Rightarrow> seed \<Rightarrow> AlignerT \<Rightarrow> error + AlignerT \<times> seed" where
  "fill_node nd s al =
     (if length (seq nd) = 0 then Inr (al, s)
      else
        (case skip_targets (m_target_subrange al) (first_pos nd) 0 of
           None \<Rightarrow> Inl Undefined
         | Some csp \<Rightarrow>
             (case fill_columns (seq nd) (first_pos nd) csp (al\<lparr>m_S := S_col s, m_Ic := I_col s\<rparr>) of
                Inl e \<Rightarrow> Inl e
              | Inr al2 \<Rightarrow> Inr (al2, \<lparr>S_col = m_S al2, I_col = m_Ic al2\<rparr>))))"

section \<open>The driver\<close>

text \<open>Modelled from the spec: the fields of \<open>Results\<close> that the aligner writes (the
  structure is declared in \<open>scoring.h\<close>; its \<open>resize\<close> is in \<open>scoring.cpp\<close>).\<close>

record Results =
  max_pos :: "int list"
  sub_pos :: "int list"
  max_count :: "int list"
  sub_count :: "int list"
  max_score :: "int list"
  sub_score :: "int list"
  correct :: "nat list"
  target_score :: "int list"
  profile :: "ScoreProfile option"

definition resize_vec :: "nat \<Rightarrow> 'a \<Rightarrow> 'a list \<Rightarrow> 'a list" where
  "resize_vec k d xs = take k xs @ replicate (k - length xs) d"

definition Results_resize :: "nat \<Rightarrow> Results \<Rightarrow> Results" where
  "Results_resize k r =
     r\<lparr>max_pos := resize_vec k 0 (max_pos r), sub_pos := resize_vec k 0 (sub_pos r),
       max_count := resize_vec k 0 (max_count r), sub_count := resize_vec k 0 (sub_count r),
       max_score := resize_vec k 0 (max_score r), sub_score := resize_vec k 0 (sub_score r),
       correct := resize_vec k 0 (correct r), target_score := resize_vec k 0 (target_score r)\<rparr>"

definition new_Results :: Results where
  "new_Results =
     \<lparr>max_pos = [], sub_pos = [], max_count = [], sub_count = [], max_score = [],
      sub_score = [], correct = [], target_score = [], profile = None\<rparr>"

definition INT_MIN :: int where
  "INT_MIN = - (2 ^ 31)"

definition INT_MAX :: int where
  "INT_MAX = 2 ^ 31 - 1"


text \<open>\<open>AlignmentGroup::_package_reads\<close>: lane \<open>r\<close> of row \<open>p\<close> gets base \<open>p\<close> of read
  \<open>r\<close>; the lanes without a read are padded with \<open>N\<close>.\<close>

definition package_reads :: "nat \<Rightarrow> nat \<Rightarrow> Base list list \<Rightarrow> Base list list \<Rightarrow> Base list list" where
  "package_reads n rl reads pk =
     (let pk1 = fold (\<lambda>r k. fold (\<lambda>p k'. k'[p := (k' ! p)[r := reads ! r ! p]]) [0..<rl] k)
                  [0..<length reads] pk
      in fold (\<lambda>r k. fold (\<lambda>p k'. k'[p := (k' ! p)[r := N]]) [0..<rl] k)
           [length reads..<n] pk1)"

definition slice :: "nat \<Rightarrow> nat \<Rightarrow> 'a list \<Rightarrow> 'a list" where
  "slice beg k xs = take k (drop beg xs)"



definition new_seed :: "nat \<Rightarrow> nat \<Rightarrow> seed" where
  "new_seed n rl = \<lparr>S_col = replicate (rl + 1) (splat n 0), I_col = replicate (rl + 1) (splat n 0)\<rparr>"

text \<open>The body of the loop over the groups in \<open>align_into\<close> follows.  \<open>tlo\<close> and
  \<open>tup\<close> are the members \<open>_targets_lower\<close> and \<open>_targets_upper\<close>.\<close>

definition group_targets :: "nat \<Rightarrow> nat \<Rightarrow> int list \<Rightarrow> nat \<Rightarrow> target list \<Rightarrow> target list" where
  "group_targets n len targets beg_offset old =
     sort_key pos
       (map (\<lambda>j. if j < len
                 then \<lparr>idx = j, score = INT_MIN, pos = targets ! (beg_offset + j)\<rparr>
                 else (old ! j)\<lparr>pos := INT_MAX\<rparr>) [0..<n + 1])"

text \<open>The first part of the loop body: the reads of the group are packaged, the best
  and second-best scores are reset to the minimum of the lane type, the result pointers are
  set to the offset of the group, and the targets of the group are sorted by position.\<close>

definition group_begin ::
  "Base list list \<Rightarrow> int list \<Rightarrow> int list \<Rightarrow> int list \<Rightarrow> nat \<Rightarrow> nat \<Rightarrow> Results
     \<Rightarrow> AlignerT \<Rightarrow> AlignerT" where
  "group_begin batch targets tlo tup beg_offset len aligns al =
     (let n = lanes al
      in al\<lparr>m_packaged_reads := package_reads n (m_read_len al) batch (m_packaged_reads al),
            m_trk := \<lparr>m_max_score = splat n (lane_min (native al)),
                      m_sub_score = splat n (lane_min (native al)),
                      m_max_pos = slice beg_offset n (max_pos aligns),
                      m_sub_pos = slice beg_offset n (sub_pos aligns),
                      m_max_count = slice beg_offset n (max_count aligns),
                      m_sub_count = slice beg_offset n (sub_count aligns),
                      m_cor_flag = slice beg_offset n (correct aligns),
                      m_targets_lower_ptr = slice beg_offset n tlo,
                      m_targets_upper_ptr = slice beg_offset n tup\<rparr>,
            m_target_subrange :=
              group_targets n len targets beg_offset (m_target_subrange al)\<rparr>)"







section \<open>Notions used to state the properties\<close>

text \<open>The members that no step of \<open>align\<close> changes after the reads are packaged.\<close>

definition config ::
  "AlignerT \<Rightarrow> (native_t \<times> nat \<times> bool \<times> nat \<times> int \<times> ScoreProfile) \<times>
                (simd_t \<times> simd_t \<times> simd_t \<times> simd_t \<times> simd_t \<times> simd_t \<times> simd_t) \<times> Base list list" where
  "config al =
     ((native al, lanes al, END_TO_END al, m_read_len al, m_bias al, m_prof al),
      (m_match_vec al, m_mismatch_vec al, m_ambig_vec al, m_gap_open_extend_vec_rd al,
       m_gap_extend_vec_rd al, m_gap_open_extend_vec_ref al, m_gap_extend_vec_ref al),
      m_packaged_reads al)"



text \<open>The score vectors are the broadcast values of the stored profile, as \<open>set_scores\<close>
  leaves them.\<close>

definition profile_vectors :: "AlignerT \<Rightarrow> bool" where
  "profile_vectors al =
     (let n = lanes al; p = m_prof al
      in m_match_vec al = broadcast (native al) n (int (match p)) \<and>
         m_mismatch_vec al = broadcast (native al) n (- int (mismatch p)) \<and>
         m_ambig_vec al = broadcast (native al) n (- int (ambig p)) \<and>
         m_gap_open_extend_vec_rd al =
           broadcast (native al) n (int (read_gopen p) + int (read_gext p)) \<and>
         m_gap_extend_vec_rd al = broadcast (native al) n (int (read_gext p)) \<and>
         m_gap_open_extend_vec_ref al =
           broadcast (native al) n (int (ref_gopen p) + int (ref_gext p)) \<and>
         m_gap_extend_vec_ref al = broadcast (native al) n (int (ref_gext p)))"

text \<open>The values of the profile fit the lane type: converting them to the lane type, as
  \<open>set_scores\<close> does when it fills the score vectors, leaves them as they are.\<close>

definition profile_fits :: "native_t \<Rightarrow> ScoreProfile \<Rightarrow> bool" where
  "profile_fits nt p =
     (int (match p) \<le> lane_max nt \<and>
      int (mismatch p) \<le> - lane_min nt \<and>
      int (ambig p) \<le> - lane_min nt \<and>
      int (read_gopen p) + int (read_gext p) \<le> lane_max nt \<and>
      int (ref_gopen p) + int (ref_gext p) \<le> lane_max nt)"

text \<open>The bonus of a cell in the words of the specification: the ambiguous penalty if
  either the reference base or the read base is \<open>N\<close>, the match score if the bases are
  equal, and the mismatch penalty otherwise.\<close>

definition bonus :: "ScoreProfile \<Rightarrow> Base \<Rightarrow> Base \<Rightarrow> int" where
  "bonus p ref rd =
     (if ref = N \<or> rd = N then - int (ambig p)
      else if rd = ref then int (match p)
      else - int (mismatch p))"

text \<open>The vector added to the diagonal in row \<open>r\<close> of a column with reference base
  \<open>ref\<close>.\<close>

definition bonus_vec :: "AlignerT \<Rightarrow> Base \<Rightarrow> nat \<Rightarrow> simd_t" where
  "bonus_vec al ref r =
     (let n = lanes al; read = m_packaged_reads al ! (r - 1)
      in if ref \<noteq> N
         then blend n (veq n read (splat n N)) (m_ambig_vec al)
                (blend n (veq n read (splat n ref)) (m_match_vec al) (m_mismatch_vec al))
         else m_ambig_vec al)"

text \<open>The state \<open>a\<close> of the row loop of one column after rows \<open>1\<close> to \<open>j\<close>, started in
  state \<open>a0\<close>: the rows beyond \<open>j\<close> are untouched, the rows up to \<open>j\<close> satisfy the
  recurrence, the diagonal holds the old score of row \<open>j\<close>, and in local mode the score
  tracker has been run on the rows \<open>1\<close> to \<open>j\<close>.\<close>

definition rows_done :: "Base \<Rightarrow> int \<Rightarrow> AlignerT \<Rightarrow> nat \<Rightarrow> AlignerT \<Rightarrow> bool" where
  "rows_done ref curr_pos a0 j a =
     (let n = lanes a0; nt = native a0
      in config a = config a0 \<and>
         length (m_S a) = length (m_S a0) \<and> length (m_Dc a) = length (m_Dc a0) \<and>
         length (m_Ic a) = length (m_Ic a0) \<and>
         m_target_subrange a = m_target_subrange a0 \<and>
         (\<forall>r. r = 0 \<or> j < r \<longrightarrow> m_S a ! r = m_S a0 ! r \<and> m_Ic a ! r = m_Ic a0 ! r) \<and>
         m_Dc a ! 0 = m_Dc a0 ! 0 \<and>
         m_Sd a = (if j = 0 then m_Sd a0 else m_S a0 ! j) \<and>
         (\<forall>r. 1 \<le> r \<and> r \<le> j \<longrightarrow>
            m_Dc a ! r = vmax n (vsub nt n (m_Dc a ! (r - 1)) (m_gap_extend_vec_ref a0))
                                (vsub nt n (m_S a ! (r - 1)) (m_gap_open_extend_vec_ref a0)) \<and>
            m_Ic a ! r = vmax n (vsub nt n (m_Ic a0 ! r) (m_gap_extend_vec_rd a0))
                                (vsub nt n (m_S a0 ! r) (m_gap_open_extend_vec_rd a0)) \<and>
            m_S a ! r = vmax n (m_Ic a ! r)
                          (vmax n (m_Dc a ! r)
                             (vadd nt n (if r = 1 then m_Sd a0 else m_S a0 ! (r - 1))
                                (bonus_vec a0 ref r)))) \<and>
         m_trk a = (if END_TO_END a0 then m_trk a0
                    else fold (\<lambda>r. track_cell n (m_read_len a0) (m_S a ! r) curr_pos)
                           [1..<j + 1] (m_trk a0)))"

text \<open>A vector of \<open>n\<close> lanes whose values are values of the lane type.\<close>

definition in_range :: "native_t \<Rightarrow> nat \<Rightarrow> simd_t \<Rightarrow> bool" where
  "in_range nt n v = (length v = n \<and> (\<forall>k<n. lane_min nt \<le> v ! k \<and> v ! k \<le> lane_max nt))"


text \<open>What the constructor establishes and \<open>align\<close> keeps: the column \<open>_Dc\<close> has
  \<open>L + 1\<close> rows and the bias is a value of the lane type.\<close>

definition aligner_ok :: "AlignerT \<Rightarrow> bool" where
  "aligner_ok al =
     (length (m_Dc al) = m_read_len al + 1 \<and>
      lane_min (native al) \<le> m_bias al \<and> m_bias al \<le> lane_max (native al))"




text \<open>The columns that a walk fills, in the order of the walk: the reference position of
  each column and the score column \<open>_S\<close> after it.  The columns of one node, of the nodes
  after the first, and of all nodes of one group.\<close>

fun fill_columns_trace :: "Base list \<Rightarrow> int \<Rightarrow> AlignerT \<Rightarrow> (int \<times> simd_t list) list" where
  "fill_columns_trace [] curr_pos al = []"
| "fill_columns_trace (ref # rest) curr_pos al =
     (curr_pos, m_S (fill_column ref curr_pos al)) #
       fill_columns_trace rest (size_t (curr_pos + 1)) (fill_column ref curr_pos al)"

definition node_trace :: "node \<Rightarrow> seed \<Rightarrow> AlignerT \<Rightarrow> (int \<times> simd_t list) list" where
  "node_trace nd s al =
     fill_columns_trace (seq nd) (first_pos nd) (al\<lparr>m_S := S_col s, m_Ic := I_col s\<rparr>)"

fun walk_trace ::
  "node list \<Rightarrow> seed \<Rightarrow> (nat \<rightharpoonup> seed) \<Rightarrow> AlignerT \<Rightarrow> (int \<times> simd_t list) list" where
  "walk_trace [] sd seed_map al = []"
| "walk_trace (nd # nds) sd seed_map al =
     (case get_seed al (incoming nd) seed_map sd of
        Inl e \<Rightarrow> []
      | Inr sd' \<Rightarrow>
          (case fill_node nd sd' al of
             Inl e \<Rightarrow> []
           | Inr r \<Rightarrow>
               node_trace nd sd' al @
               walk_trace nds sd'
                 ((if is_pinched nd then Map.empty else seed_map)(ident nd \<mapsto> snd r)) (fst r)))"

definition walk_nodes_trace :: "node list \<Rightarrow> AlignerT \<Rightarrow> (int \<times> simd_t list) list" where
  "walk_nodes_trace nodes al =
     (case nodes of
        [] \<Rightarrow> []
      | nd # nds \<Rightarrow>
          (let sd = seed_matrix al (new_seed (lanes al) (m_read_len al))
           in case fill_node nd sd al of
                Inl e \<Rightarrow> []
              | Inr r \<Rightarrow>
                  node_trace nd sd al @ walk_trace nds sd (Map.empty(ident nd \<mapsto> snd r)) (fst r)))"

text \<open>The cells that count for a target at position \<open>p\<close> of the read in lane \<open>i\<close>: the
  eligible rows (all rows from 1 to \<open>L\<close> in local mode, row \<open>L\<close> in end-to-end mode) of the
  columns at position \<open>p\<close>.\<close>

definition target_cells :: "bool \<Rightarrow> nat \<Rightarrow> (int \<times> simd_t list) list \<Rightarrow> int \<Rightarrow> nat \<Rightarrow> int list" where
  "target_cells ete rl trace p i =
     concat (map (\<lambda>c. if fst c = p
                       then map (\<lambda>q. snd c ! q ! i) [(if ete then rl else 1)..<rl + 1]
                       else []) trace)"

text \<open>What the loop over the targets does to the score of one entry at a column whose
  position is the position of the entry, and what a sequence of columns does to an entry.\<close>

definition row_max :: "bool \<Rightarrow> nat \<Rightarrow> simd_t list \<Rightarrow> nat \<Rightarrow> int \<Rightarrow> int" where
  "row_max ete rl s i sc = fold (\<lambda>q sc. max sc (s ! q ! i)) [(if ete then rl else 1)..<rl + 1] sc"

definition target_after :: "bool \<Rightarrow> nat \<Rightarrow> (int \<times> simd_t list) list \<Rightarrow> target \<Rightarrow> target" where
  "target_after ete rl trace t =
     t\<lparr>score := fold (\<lambda>c sc. if fst c = pos t then row_max ete rl (snd c) (idx t) sc else sc)
                  trace (score t)\<rparr>"

section \<open>Spec-side definitions and example inputs\<close>

text \<open>The spec's reading of "the lane type can represent the worst-case score range":
  scores reach \<open>L * match\<close> and, in end-to-end mode, go as low as
  \<open>- (L * max mismatch (gopen + L * gext))\<close>.\<close>

definition spec_range_representable :: "native_t \<Rightarrow> bool \<Rightarrow> nat \<Rightarrow> ScoreProfile \<Rightarrow> bool" where
  "spec_range_representable nt ete rl p =
     (let hi = int rl * int (match p);
          lo = (if ete
                then - (int rl * max (int (mismatch p)) (int (read_gopen p) + int rl * int (read_gext p)))
                else 0)
      in hi - lo \<le> lane_max nt - lane_min nt)"

text \<open>The profile that the tests build with \<open>ScoreProfile(match, mismatch, open, extend)\<close>:
  the same gap penalties on both sides.\<close>

definition example_profile :: "nat \<Rightarrow> nat \<Rightarrow> nat \<Rightarrow> nat \<Rightarrow> ScoreProfile" where
  "example_profile m mm gopen gext =
     \<lparr>match = m, mismatch = mm, ambig = 0, read_gopen = gopen, read_gext = gext,
      ref_gopen = gopen, ref_gext = gext, end_to_end = False, tol = 0\<rparr>"


text \<open>The aligner that the constructor returns for parameters it accepts.\<close>

definition example_aligner :: "native_t \<Rightarrow> nat \<Rightarrow> bool \<Rightarrow> nat \<Rightarrow> ScoreProfile \<Rightarrow> AlignerT" where
  "example_aligner nt n ete rl p =
     (case AlignerT_ctor nt n ete rl p of
        Inr al \<Rightarrow> al
      | Inl e \<Rightarrow> AlignerT_init nt n ete rl p)"

text \<open>An end-to-end run up to the second node of a two-node graph: the group is begun for
  the read \<open>CC\<close>, the seed matrix is built, and the first node \<open>A\<close> is filled.\<close>

definition ete_first_node :: "error + AlignerT \<times> seed" where
  "ete_first_node =
     (let al = example_aligner Int8 2 True 2 (example_profile 0 6 5 3);
          al1 = group_begin [[C, C]] [0] [0, 0] [0, 0] 0 1 (Results_resize 2 new_Results) al
      in fill_node \<lparr>ident = 0, end_pos = 0, seq = [A], incoming = [], is_pinched = True\<rparr>
           (seed_matrix al1 (new_seed 2 2)) al1)"

text \<open>An aligner begun for one batch of reads (all targets 0) and seeded as
  \<open>_fill_node\<close> seeds the first node of a graph.\<close>

definition seeded_aligner ::
  "native_t \<Rightarrow> nat \<Rightarrow> bool \<Rightarrow> nat \<Rightarrow> ScoreProfile \<Rightarrow> Base list list \<Rightarrow> AlignerT" where
  "seeded_aligner nt n ete rl p reads =
     (let al = example_aligner nt n ete rl p;
          al1 = group_begin reads (replicate (length reads) 0) (replicate n 0) (replicate n 0)
                  0 (length reads) (Results_resize n new_Results) al;
          sd = seed_matrix al1 (new_seed n rl)
      in al1\<lparr>m_S := S_col sd, m_Ic := I_col sd\<rparr>)"
section \<open>Construction, bias and tolerance\<close>

lemma lane_width: "lane_max nt - lane_min nt = 2 ^ lane_bits nt - 1"
  by (cases nt) (simp_all add: lane_max_def lane_min_def)

lemma lane_bounds: "lane_min nt < 0" "0 < lane_max nt" "lane_max nt < 2 ^ 32"
  by (cases nt; simp add: lane_max_def lane_min_def)+

lemma get_bias_fails:
  assumes "rl < 2 ^ 56" "m < 256"
  shows "get_bias nt ete rl m mm go ge = Inl InsufficientPrecision \<longleftrightarrow>
         int rl * int m > lane_max nt - lane_min nt"
proof -
  have "int rl * int m < 2 ^ 64"
  proof -
    have "int rl * int m \<le> (2 ^ 56 - 1) * 255"
      using assms by (intro mult_mono) auto
    then show ?thesis by simp
  qed
  hence "size_t (int rl * uint8_t (int m)) = int rl * int m"
    using assms by (simp add: size_t_def uint8_t_def)
  thus ?thesis by (simp add: get_bias_def)
qed

lemma get_bias_value:
  assumes "rl < 2 ^ 56" "m < 256" "get_bias nt ete rl m mm go ge = Inr b"
  shows "b = (if ete then lane_max nt - int rl * int m else lane_min nt)"
proof -
  have le: "int rl * int m \<le> lane_max nt - lane_min nt"
    using get_bias_fails[OF assms(1,2), of nt ete mm go ge] assms(3)
    by (auto simp: get_bias_def split: if_splits)
  have w: "lane_max nt - lane_min nt = 2 ^ lane_bits nt - 1" by (rule lane_width)
  have small: "int rl * int m < 2 ^ 64"
    using le w by (cases nt) (simp_all)
  hence sz: "size_t (int rl * uint8_t (int m)) = int rl * int m"
    using assms by (simp add: size_t_def uint8_t_def)
  show ?thesis
  proof (cases ete)
    case False
    then show ?thesis using assms(3) by (auto simp: get_bias_def split: if_splits)
  next
    case True
    define x where "x = int rl * int m"
    have x0: "0 \<le> x" by (simp add: x_def)
    have xle: "x \<le> 2 ^ lane_bits nt - 1" using le w by (simp add: x_def)
    have b: "b = to_native nt (unsigned_int (size_t (lane_max nt - x)))"
      using assms(3) True sz by (auto simp: get_bias_def x_def split: if_splits)
    have narrow8: "(y mod 2 ^ 64 mod 2 ^ 32 + 128) mod 256 = (y + 128) mod 256" for y :: int
    proof -
      have "y mod 2 ^ 64 mod 2 ^ 32 mod 256 = y mod 256"
        by (simp add: mod_mod_cancel)
      then show ?thesis by (metis mod_add_left_eq)
    qed
    have narrow16: "(y mod 2 ^ 64 mod 2 ^ 32 + 32768) mod 65536 = (y + 32768) mod 65536" for y :: int
    proof -
      have "y mod 2 ^ 64 mod 2 ^ 32 mod 65536 = y mod 65536"
        by (simp add: mod_mod_cancel)
      then show ?thesis by (metis mod_add_left_eq)
    qed
    have "to_native nt (unsigned_int (size_t (lane_max nt - x))) = lane_max nt - x"
    proof (cases nt)
      case Int8
      then show ?thesis using x0 xle narrow8[of "127 - x"]
        by (simp add: to_native_def unsigned_int_def size_t_def lane_max_def)
    next
      case Int16
      then show ?thesis using x0 xle narrow16[of "32767 - x"]
        by (simp add: to_native_def unsigned_int_def size_t_def lane_max_def)
    qed
    then show ?thesis using b True by (simp add: x_def)
  qed
qed

lemma ctor_eq:
  "AlignerT_ctor nt n ete rl p =
     (case get_bias nt ete rl (match p) (mismatch p) (read_gopen p) (read_gext p) of
        Inl e \<Rightarrow> Inl e
      | Inr b \<Rightarrow> AlignerT_ctor nt n ete rl p)"
  by (simp add: AlignerT_ctor_def set_scores_def AlignerT_init_def split: sum.splits)

lemma ctor_Inl_iff:
  "AlignerT_ctor nt n ete rl p = Inl e \<longleftrightarrow>
   get_bias nt ete rl (match p) (mismatch p) (read_gopen p) (read_gext p) = Inl e"
  by (simp add: AlignerT_ctor_def set_scores_def AlignerT_init_def split: sum.splits)

lemma ctor_Inr_bias:
  "AlignerT_ctor nt n ete rl p = Inr al \<Longrightarrow>
   get_bias nt ete rl (match p) (mismatch p) (read_gopen p) (read_gext p) = Inr (m_bias al)"
  by (auto simp: AlignerT_ctor_def set_scores_def AlignerT_init_def set_correctness_tolerance_def
           split: sum.splits)

text \<open>
  Claim C5, as amended.  For a read length below \<open>2 ^ 56\<close> and a match score that fits
  \<open>uint8_t\<close> (so that the \<open>size_t\<close> product does not wrap), construction fails, and then
  with the insufficient-precision error, exactly when \<open>read_len * match\<close> exceeds
  \<open>max - min\<close> of the lane type; mismatch, gap penalties and the mode play no part in the
  check.  When construction succeeds the bias is the minimum of the lane type in local mode
  and \<open>max - read_len * match\<close> in end-to-end mode.
\<close>

theorem ctor_insufficient_precision:
  assumes "rl < 2 ^ 56" "match p < 256"
  shows "(AlignerT_ctor nt n ete rl p = Inl InsufficientPrecision \<longleftrightarrow>
            int rl * int (match p) > lane_max nt - lane_min nt) \<and>
         (\<forall>e. AlignerT_ctor nt n ete rl p = Inl e \<longrightarrow> e = InsufficientPrecision) \<and>
         (\<forall>al. AlignerT_ctor nt n ete rl p = Inr al \<longrightarrow>
            m_bias al = (if ete then lane_max nt - int rl * int (match p) else lane_min nt))"
proof (intro conjI allI impI)
  show "AlignerT_ctor nt n ete rl p = Inl InsufficientPrecision \<longleftrightarrow>
            int rl * int (match p) > lane_max nt - lane_min nt"
    using get_bias_fails[OF assms] by (simp add: ctor_Inl_iff)
next
  fix e assume "AlignerT_ctor nt n ete rl p = Inl e"
  then show "e = InsufficientPrecision"
    by (auto simp: ctor_Inl_iff get_bias_def split: if_splits)
next
  fix al assume "AlignerT_ctor nt n ete rl p = Inr al"
  then show "m_bias al = (if ete then lane_max nt - int rl * int (match p) else lane_min nt)"
    using get_bias_value[OF assms] ctor_Inr_bias by blast
qed

text \<open>Witness: the bound check of the tests (\<open>AlignerETE(100, 3, 2, 2, 2)\<close> throws) and
  the end-to-end aligner of the tests (\<open>AlignerETE(21, 0, 6, 5, 3)\<close>, bias 127).\<close>

theorem ctor_insufficient_precision_witness:
  "AlignerT_ctor Int8 16 True 100 (example_profile 3 2 2 2) = Inl InsufficientPrecision \<and>
   (\<exists>al. AlignerT_ctor Int8 16 True 21 (example_profile 0 6 5 3) = Inr al \<and> m_bias al = 127)"
proof -
  have h1: "(100::nat) < 2 ^ 56" "match (example_profile 3 2 2 2) < 256"
    by (simp_all add: example_profile_def)
  have h2: "(21::nat) < 2 ^ 56" "match (example_profile 0 6 5 3) < 256"
    by (simp_all add: example_profile_def)
  have a: "AlignerT_ctor Int8 16 True 100 (example_profile 3 2 2 2) = Inl InsufficientPrecision"
    using ctor_insufficient_precision[OF h1, of Int8 16 True]
    by (simp add: example_profile_def lane_max_def lane_min_def)
  obtain al where al: "AlignerT_ctor Int8 16 True 21 (example_profile 0 6 5 3) = Inr al"
    using ctor_insufficient_precision[OF h2, of Int8 16 True]
    by (cases "AlignerT_ctor Int8 16 True 21 (example_profile 0 6 5 3)")
       (auto simp: example_profile_def lane_max_def lane_min_def)
  have "m_bias al = 127"
    using ctor_insufficient_precision[OF h2, of Int8 16 True] al
    by (simp add: example_profile_def lane_max_def)
  with a al show ?thesis by blast
qed

text \<open>
  Claim C5 as stated fails: an end-to-end 8 bit aligner for reads of length 100 with
  match 1, mismatch 2, gap open 3 and gap extend 1 cannot hold the worst-case range (a read
  of 100 mismatches scores -200, below \<open>-128 - 27\<close>), the source itself diagnoses the
  possible saturation, and construction succeeds with bias 27.
\<close>

theorem ctor_precision_counterexample:
  "\<not> spec_range_representable Int8 True 100 (example_profile 1 2 3 1) \<and>
   saturation_warning Int8 True 100 1 2 3 1 \<and>
   (case AlignerT_ctor Int8 16 True 100 (example_profile 1 2 3 1) of
      Inl e \<Rightarrow> False | Inr al \<Rightarrow> m_bias al = 27)"
  by code_simp


text \<open>
  Claim C10.  After construction from a read length and a profile the tolerance is
  \<open>read_len div 4\<close>, whatever \<open>tol\<close> the profile holds; a later \<open>set_scores\<close> installs the
  \<open>tol\<close> of its profile and \<open>set_correctness_tolerance\<close> installs its argument.
\<close>

theorem ctor_tolerance:
  assumes "AlignerT_ctor nt n ete rl p = Inr al"
  shows "tolerance al = rl div 4 \<and>
         (set_scores p' al = Inr al' \<longrightarrow> tolerance al' = tol p') \<and>
         tolerance (set_correctness_tolerance t al) = t"
  using assms
  by (auto simp: AlignerT_ctor_def set_scores_def set_correctness_tolerance_def tolerance_def
        DEFAULT_TOL_FACTOR_def split: sum.splits)

text \<open>Witness: read length 10 and a profile with \<open>tol = 7\<close> give tolerance 2.\<close>

theorem ctor_tolerance_witness:
  "(case AlignerT_ctor Int8 16 False 10 ((example_profile 2 2 3 1)\<lparr>tol := 7\<rparr>) of
      Inl e \<Rightarrow> False
    | Inr al \<Rightarrow> tolerance al = 2 \<and>
        (case set_scores ((example_profile 2 2 3 1)\<lparr>tol := 7\<rparr>) al of
           Inl e \<Rightarrow> False | Inr al' \<Rightarrow> tolerance al' = 7) \<and>
        tolerance (set_correctness_tolerance 5 al) = 5)"
proof -
  let ?p = "(example_profile 2 2 3 1)\<lparr>tol := 7\<rparr>"
  obtain al where h: "AlignerT_ctor Int8 16 False 10 ?p = Inr al"
    by (simp add: AlignerT_ctor_def set_scores_def get_bias_def AlignerT_init_def
          example_profile_def size_t_def uint8_t_def lane_max_def lane_min_def)
  obtain al' where h': "set_scores ?p al = Inr al'"
    using h
    by (auto simp: AlignerT_ctor_def set_scores_def get_bias_def AlignerT_init_def
          set_correctness_tolerance_def
          example_profile_def size_t_def uint8_t_def lane_max_def lane_min_def split: sum.splits)
  from ctor_tolerance[OF h, of ?p al' 5] h'
  have "tolerance al = 2 \<and> tolerance al' = 7 \<and> tolerance (set_correctness_tolerance 5 al) = 5"
    by (simp add: example_profile_def)
  with h h' show ?thesis by simp
qed

section \<open>The seed of a node\<close>

text \<open>
  Claim C4 at a failing input.  An 8 bit end-to-end aligner (match 0, mismatch 6, gap open
  5, gap extend 3, bias 127) for reads of length 2 has filled the node \<open>A\<close> for the read
  \<open>CC\<close>: the last score column of that node is 124 and 121 in rows 1 and 2 of the lane of
  the read (127 and 122 in the padded lane).  The seed that \<open>_get_seed\<close> assembles for a
  successor of this one node is the bias, 127, in every row: it starts each row at the bias
  and takes the maximum with the predecessors, and in end-to-end mode the bias is not the
  least score.
\<close>

theorem get_seed_end_to_end_floor:
  "(case ete_first_node of
      Inl e \<Rightarrow> False
    | Inr r \<Rightarrow>
        S_col (snd r) ! 1 = [124, 127] \<and>
        S_col (snd r) ! 2 = [121, 122] \<and>
        I_col (snd r) ! 1 = [119, 119] \<and>
        (case get_seed (fst r) [0] (Map.empty(0 \<mapsto> snd r))
                (seed_matrix (fst r) (new_seed 2 2)) of
           Inl e \<Rightarrow> False
         | Inr s \<Rightarrow> S_col s ! 1 = [127, 127] \<and> S_col s ! 2 = [127, 127] \<and>
                    I_col s ! 1 = [127, 127]))"
  by code_simp

section \<open>One column of the matrix\<close>

lemma config_fill_cell_finish [simp]: "config (fill_cell_finish row curr_pos al) = config al"
  by (simp add: config_def fill_cell_finish_def)

lemma config_fill_cell [simp]: "config (fill_cell read ref row curr_pos al) = config al"
  by (simp add: config_def fill_cell_def fill_cell_finish_def Let_def)

lemma config_fill_rows [simp]: "config (fill_rows ref curr_pos rows al) = config al"
  by (induction rows arbitrary: al) simp_all

lemma config_fill_column [simp]: "config (fill_column ref curr_pos al) = config al"
proof -
  have "config (al\<lparr>m_Sd := v\<rparr>) = config al" for v
    by (simp add: config_def)
  then show ?thesis by (simp add: fill_column_def Let_def)
qed

lemma config_target_subrange [simp]: "config (al\<lparr>m_target_subrange := ts\<rparr>) = config al"
  by (simp add: config_def)



lemma config_fields:
  assumes "config a = config b"
  shows "native a = native b" "lanes a = lanes b" "END_TO_END a = END_TO_END b"
    "m_read_len a = m_read_len b" "m_bias a = m_bias b" "m_prof a = m_prof b"
    "m_match_vec a = m_match_vec b" "m_mismatch_vec a = m_mismatch_vec b"
    "m_ambig_vec a = m_ambig_vec b"
    "m_gap_open_extend_vec_rd a = m_gap_open_extend_vec_rd b"
    "m_gap_extend_vec_rd a = m_gap_extend_vec_rd b"
    "m_gap_open_extend_vec_ref a = m_gap_open_extend_vec_ref b"
    "m_gap_extend_vec_ref a = m_gap_extend_vec_ref b"
    "m_packaged_reads a = m_packaged_reads b"
  using assms by (simp_all add: config_def)

lemma fill_cell_Dc:
  "m_Dc (fill_cell read ref row curr_pos al) =
     (m_Dc al)[row := vmax (lanes al)
        (vsub (native al) (lanes al) (m_Dc al ! (row - 1)) (m_gap_extend_vec_ref al))
        (vsub (native al) (lanes al) (m_S al ! (row - 1)) (m_gap_open_extend_vec_ref al))]"
  by (simp add: fill_cell_def fill_cell_finish_def Let_def)

lemma fill_cell_Ic:
  "m_Ic (fill_cell read ref row curr_pos al) =
     (m_Ic al)[row := vmax (lanes al)
        (vsub (native al) (lanes al) (m_Ic al ! row) (m_gap_extend_vec_rd al))
        (vsub (native al) (lanes al) (m_S al ! row) (m_gap_open_extend_vec_rd al))]"
  by (simp add: fill_cell_def fill_cell_finish_def Let_def)

lemma fill_cell_Sd: "m_Sd (fill_cell read ref row curr_pos al) = m_S al ! row"
  by (simp add: fill_cell_def fill_cell_finish_def Let_def)

lemma fill_cell_tsub:
  "m_target_subrange (fill_cell read ref row curr_pos al) = m_target_subrange al"
  by (simp add: fill_cell_def fill_cell_finish_def Let_def)

lemma fill_cell_S:
  "m_S (fill_cell read ref row curr_pos al) =
     (m_S al)[row := vmax (lanes al) (m_Ic (fill_cell read ref row curr_pos al) ! row)
        (vmax (lanes al) (m_Dc (fill_cell read ref row curr_pos al) ! row)
           (vadd (native al) (lanes al) (m_Sd al)
              (if ref \<noteq> N
               then blend (lanes al) (veq (lanes al) read (splat (lanes al) N)) (m_ambig_vec al)
                      (blend (lanes al) (veq (lanes al) read (splat (lanes al) ref))
                         (m_match_vec al) (m_mismatch_vec al))
               else m_ambig_vec al)))]"
  by (simp add: fill_cell_def fill_cell_finish_def Let_def)

lemma fill_cell_trk:
  "m_trk (fill_cell read ref row curr_pos al) =
     (if END_TO_END al then m_trk al
      else track_cell (lanes al) (m_read_len al)
             (m_S (fill_cell read ref row curr_pos al) ! row) curr_pos (m_trk al))"
  by (simp add: fill_cell_def fill_cell_finish_def Let_def)

lemma rows_done_start: "rows_done ref curr_pos a0 0 a0"
  by (simp add: rows_done_def)

lemma rows_done_step:
  assumes inv: "rows_done ref curr_pos a0 j a"
    and j: "j < m_read_len a0"
    and len: "length (m_S a0) = m_read_len a0 + 1" "length (m_Dc a0) = m_read_len a0 + 1"
      "length (m_Ic a0) = m_read_len a0 + 1"
  shows "rows_done ref curr_pos a0 (j + 1)
           (fill_cell (m_packaged_reads a ! j) ref (j + 1) curr_pos a)"
proof -
  define n where "n = lanes a0"
  define nt where "nt = native a0"
  define a' where "a' = fill_cell (m_packaged_reads a0 ! j) ref (j + 1) curr_pos a"
  note I = inv[unfolded rows_done_def Let_def, folded n_def nt_def]
  have cfg: "config a = config a0" using I by blast
  note cf = config_fields[OF cfg]
  have lS: "length (m_S a) = m_read_len a0 + 1" and lD: "length (m_Dc a) = m_read_len a0 + 1"
    and lI: "length (m_Ic a) = m_read_len a0 + 1"
    using I len by simp_all
  have un: "\<And>r. r = 0 \<or> j < r \<Longrightarrow> m_S a ! r = m_S a0 ! r \<and> m_Ic a ! r = m_Ic a0 ! r"
    using I by blast
  have D0: "m_Dc a ! 0 = m_Dc a0 ! 0" using I by blast
  have Sd: "m_Sd a = (if j = 0 then m_Sd a0 else m_S a0 ! j)" using I by blast
  have dn: "\<And>r. 1 \<le> r \<Longrightarrow> r \<le> j \<Longrightarrow>
            m_Dc a ! r = vmax n (vsub nt n (m_Dc a ! (r - 1)) (m_gap_extend_vec_ref a0))
                                (vsub nt n (m_S a ! (r - 1)) (m_gap_open_extend_vec_ref a0)) \<and>
            m_Ic a ! r = vmax n (vsub nt n (m_Ic a0 ! r) (m_gap_extend_vec_rd a0))
                                (vsub nt n (m_S a0 ! r) (m_gap_open_extend_vec_rd a0)) \<and>
            m_S a ! r = vmax n (m_Ic a ! r)
                          (vmax n (m_Dc a ! r)
                             (vadd nt n (if r = 1 then m_Sd a0 else m_S a0 ! (r - 1))
                                (bonus_vec a0 ref r)))"
    using I by blast
  have trk: "m_trk a = (if END_TO_END a0 then m_trk a0
                    else fold (\<lambda>r. track_cell n (m_read_len a0) (m_S a ! r) curr_pos)
                           [1..<j + 1] (m_trk a0))"
    using I by blast
  have tsub: "m_target_subrange a = m_target_subrange a0" using I by blast
  have Dc': "m_Dc a' = (m_Dc a)[j + 1 := vmax n
        (vsub nt n (m_Dc a ! j) (m_gap_extend_vec_ref a0))
        (vsub nt n (m_S a ! j) (m_gap_open_extend_vec_ref a0))]"
    by (simp add: a'_def fill_cell_Dc cf n_def nt_def)
  have Ic': "m_Ic a' = (m_Ic a)[j + 1 := vmax n
        (vsub nt n (m_Ic a0 ! (j + 1)) (m_gap_extend_vec_rd a0))
        (vsub nt n (m_S a0 ! (j + 1)) (m_gap_open_extend_vec_rd a0))]"
    using un[of "j + 1"] by (simp add: a'_def fill_cell_Ic cf n_def nt_def)
  have bv: "(if ref \<noteq> N
               then blend n (veq n (m_packaged_reads a0 ! j) (splat n N)) (m_ambig_vec a0)
                      (blend n (veq n (m_packaged_reads a0 ! j) (splat n ref))
                         (m_match_vec a0) (m_mismatch_vec a0))
               else m_ambig_vec a0) = bonus_vec a0 ref (j + 1)"
    by (simp add: bonus_vec_def Let_def n_def)
  have S': "m_S a' = (m_S a)[j + 1 := vmax n (m_Ic a' ! (j + 1))
        (vmax n (m_Dc a' ! (j + 1))
           (vadd nt n (if j = 0 then m_Sd a0 else m_S a0 ! j) (bonus_vec a0 ref (j + 1))))]"
    unfolding a'_def
    by (subst fill_cell_S) (simp only: cf n_def[symmetric] nt_def[symmetric] bv Sd)
  have trk': "m_trk a' = (if END_TO_END a0 then m_trk a
      else track_cell n (m_read_len a0) (m_S a' ! (j + 1)) curr_pos (m_trk a))"
    unfolding a'_def
    by (subst fill_cell_trk) (simp only: cf n_def[symmetric])
  have old: "\<And>r. r \<noteq> j + 1 \<Longrightarrow> m_S a' ! r = m_S a ! r \<and> m_Dc a' ! r = m_Dc a ! r \<and>
               m_Ic a' ! r = m_Ic a ! r"
    by (simp add: S' Dc' Ic')
  have inb: "j + 1 < m_read_len a0 + 1" using j by simp
  have newD: "m_Dc a' ! (j + 1) = vmax n
        (vsub nt n (m_Dc a ! j) (m_gap_extend_vec_ref a0))
        (vsub nt n (m_S a ! j) (m_gap_open_extend_vec_ref a0))"
    using inb lD by (simp add: Dc')
  have newI: "m_Ic a' ! (j + 1) = vmax n
        (vsub nt n (m_Ic a0 ! (j + 1)) (m_gap_extend_vec_rd a0))
        (vsub nt n (m_S a0 ! (j + 1)) (m_gap_open_extend_vec_rd a0))"
    using inb lI by (simp add: Ic')
  have newS: "m_S a' ! (j + 1) = vmax n (m_Ic a' ! (j + 1))
        (vmax n (m_Dc a' ! (j + 1))
           (vadd nt n (if j = 0 then m_Sd a0 else m_S a0 ! j) (bonus_vec a0 ref (j + 1))))"
    using inb lS by (simp add: S')
  have c1: "config a' = config a0" by (simp add: a'_def cfg)
  have c2: "length (m_S a') = length (m_S a0)" "length (m_Dc a') = length (m_Dc a0)"
    "length (m_Ic a') = length (m_Ic a0)"
    using lS lD lI len by (simp_all add: S' Dc' Ic')
  have c3: "m_target_subrange a' = m_target_subrange a0"
    by (simp add: a'_def fill_cell_tsub tsub)
  have c4: "\<forall>r. r = 0 \<or> j + 1 < r \<longrightarrow> m_S a' ! r = m_S a0 ! r \<and> m_Ic a' ! r = m_Ic a0 ! r"
  proof (intro allI impI)
    fix r assume r: "r = 0 \<or> j + 1 < r"
    then have "r \<noteq> j + 1" "r = 0 \<or> j < r" by auto
    then show "m_S a' ! r = m_S a0 ! r \<and> m_Ic a' ! r = m_Ic a0 ! r"
      using old[of r] un[of r] by simp
  qed
  have c5: "m_Dc a' ! 0 = m_Dc a0 ! 0" using old[of 0] D0 by simp
  have c6: "m_Sd a' = (if j + 1 = 0 then m_Sd a0 else m_S a0 ! (j + 1))"
    using un[of "j + 1"] by (simp add: a'_def fill_cell_Sd)
  have c7: "\<forall>r. 1 \<le> r \<and> r \<le> j + 1 \<longrightarrow>
            m_Dc a' ! r = vmax n (vsub nt n (m_Dc a' ! (r - 1)) (m_gap_extend_vec_ref a0))
                                (vsub nt n (m_S a' ! (r - 1)) (m_gap_open_extend_vec_ref a0)) \<and>
            m_Ic a' ! r = vmax n (vsub nt n (m_Ic a0 ! r) (m_gap_extend_vec_rd a0))
                                (vsub nt n (m_S a0 ! r) (m_gap_open_extend_vec_rd a0)) \<and>
            m_S a' ! r = vmax n (m_Ic a' ! r)
                          (vmax n (m_Dc a' ! r)
                             (vadd nt n (if r = 1 then m_Sd a0 else m_S a0 ! (r - 1))
                                (bonus_vec a0 ref r)))"
  proof (intro allI impI)
    fix r assume r: "1 \<le> r \<and> r \<le> j + 1"
    show "m_Dc a' ! r = vmax n (vsub nt n (m_Dc a' ! (r - 1)) (m_gap_extend_vec_ref a0))
                                (vsub nt n (m_S a' ! (r - 1)) (m_gap_open_extend_vec_ref a0)) \<and>
            m_Ic a' ! r = vmax n (vsub nt n (m_Ic a0 ! r) (m_gap_extend_vec_rd a0))
                                (vsub nt n (m_S a0 ! r) (m_gap_open_extend_vec_rd a0)) \<and>
            m_S a' ! r = vmax n (m_Ic a' ! r)
                          (vmax n (m_Dc a' ! r)
                             (vadd nt n (if r = 1 then m_Sd a0 else m_S a0 ! (r - 1))
                                (bonus_vec a0 ref r)))"
    proof (cases "r = j + 1")
      case True
      have p: "m_Dc a' ! j = m_Dc a ! j" "m_S a' ! j = m_S a ! j"
        using old[of j] by simp_all
      have d: "(if j = 0 then m_Sd a0 else m_S a0 ! j) =
               (if r = 1 then m_Sd a0 else m_S a0 ! (r - 1))"
        using True by simp
      show ?thesis
        using newD newI newS by (simp only: True add_diff_cancel_right' p d[unfolded True])
    next
      case False
      then have rj: "1 \<le> r" "r \<le> j" using r by auto
      have q: "r \<noteq> j + 1" "r - 1 \<noteq> j + 1" using rj by auto
      show ?thesis
        using dn[OF rj] old[OF q(1)] old[OF q(2)] by simp
    qed
  qed
  have c8: "m_trk a' = (if END_TO_END a0 then m_trk a0
                    else fold (\<lambda>r. track_cell n (m_read_len a0) (m_S a' ! r) curr_pos)
                           [1..<j + 1 + 1] (m_trk a0))"
  proof (cases "END_TO_END a0")
    case True
    then show ?thesis using trk' trk by simp
  next
    case False
    have fc: "fold (\<lambda>r. track_cell n (m_read_len a0) (m_S a' ! r) curr_pos) [1..<j + 1] (m_trk a0) =
              fold (\<lambda>r. track_cell n (m_read_len a0) (m_S a ! r) curr_pos) [1..<j + 1] (m_trk a0)"
    proof (rule fold_cong)
      fix x assume "x \<in> set [1..<j + 1]"
      then have "x \<noteq> j + 1" by auto
      then show "track_cell n (m_read_len a0) (m_S a' ! x) curr_pos =
                 track_cell n (m_read_len a0) (m_S a ! x) curr_pos"
        using old[of x] by simp
    qed simp_all
    have up: "[1..<j + 1 + 1] = [1..<j + 1] @ [j + 1]" by simp
    show ?thesis
      using False trk' trk by (simp only: up fold_append fc if_False comp_apply fold.simps id_apply)
  qed
  show ?thesis
    unfolding cf(14) rows_done_def Let_def a'_def[symmetric] n_def[symmetric] nt_def[symmetric]
    using c1 c2 c3 c4 c5 c6 c7 c8 by (intro conjI) simp_all
qed

lemma rows_done_fill_rows:
  assumes "rows_done ref curr_pos a0 i a" "i \<le> m_read_len a0"
    and len: "length (m_S a0) = m_read_len a0 + 1" "length (m_Dc a0) = m_read_len a0 + 1"
      "length (m_Ic a0) = m_read_len a0 + 1"
  shows "rows_done ref curr_pos a0 (m_read_len a0)
           (fill_rows ref curr_pos [i..<m_read_len a0] a)"
  using assms(1,2)
proof (induction "m_read_len a0 - i" arbitrary: i a)
  case 0
  then show ?case by simp
next
  case (Suc d)
  then have lt: "i < m_read_len a0" by simp
  have st: "rows_done ref curr_pos a0 (i + 1)
              (fill_cell (m_packaged_reads a ! i) ref (i + 1) curr_pos a)"
    using rows_done_step[OF Suc.prems(1) lt len] .
  have d: "d = m_read_len a0 - (i + 1)" using Suc.hyps(2) by simp
  have le: "i + 1 \<le> m_read_len a0" using lt by simp
  have u: "[i..<m_read_len a0] = i # [i + 1..<m_read_len a0]"
    using lt by (simp add: upt_conv_Cons)
  show ?case
    using Suc.hyps(1)[OF d st le] by (simp only: u fill_rows.simps)
qed

lemma lanewise_nth [simp]: "k < n \<Longrightarrow> lanewise n f a b ! k = f (a ! k) (b ! k)"
  by (simp add: lanewise_def)

lemma lanewise_length [simp]: "length (lanewise n f a b) = n"
  by (simp add: lanewise_def)

lemma vec_nth [simp]:
  assumes "k < n"
  shows "vadd nt n a b ! k = sat nt (a ! k + b ! k)"
    "vsub nt n a b ! k = sat nt (a ! k - b ! k)"
    "vmax n a b ! k = max (a ! k) (b ! k)"
    "veq n c d ! k = (c ! k = d ! k)"
    "vgt n a b ! k = (a ! k > b ! k)"
    "vlt n a b ! k = (a ! k < b ! k)"
    "vand n p q ! k = (p ! k \<and> q ! k)"
    "blend n m a b ! k = (if m ! k then a ! k else b ! k)"
    "splat n x ! k = x"
  using assms
  by (simp_all add: vadd_def vsub_def vmax_def veq_def vgt_def vlt_def vand_def blend_def splat_def)

lemma vec_length [simp]:
  "length (vadd nt n a b) = n" "length (vsub nt n a b) = n" "length (vmax n a b) = n"
  "length (veq n c d) = n" "length (vgt n a b) = n" "length (vlt n a b) = n"
  "length (vand n p q) = n" "length (blend n m a b) = n" "length (splat n x) = n"
  by (simp_all add: vadd_def vsub_def vmax_def veq_def vgt_def vlt_def vand_def blend_def splat_def)

lemma fill_column_rows_done:
  assumes len: "length (m_S al) = m_read_len al + 1" "length (m_Dc al) = m_read_len al + 1"
      "length (m_Ic al) = m_read_len al + 1"
  shows "rows_done ref curr_pos (al\<lparr>m_Sd := splat (lanes al) (m_bias al)\<rparr>) (m_read_len al)
           (fill_rows ref curr_pos [0..<m_read_len al] (al\<lparr>m_Sd := splat (lanes al) (m_bias al)\<rparr>))"
proof -
  define a1 where "a1 = al\<lparr>m_Sd := splat (lanes al) (m_bias al)\<rparr>"
  have rl: "m_read_len a1 = m_read_len al" by (simp add: a1_def)
  have l1: "length (m_S a1) = m_read_len a1 + 1" "length (m_Dc a1) = m_read_len a1 + 1"
      "length (m_Ic a1) = m_read_len a1 + 1"
    using len by (simp_all add: a1_def)
  have "rows_done ref curr_pos a1 (m_read_len a1) (fill_rows ref curr_pos [0..<m_read_len a1] a1)"
    using rows_done_fill_rows[OF rows_done_start _ l1, of ref curr_pos] by simp
  then have "rows_done ref curr_pos a1 (m_read_len al) (fill_rows ref curr_pos [0..<m_read_len al] a1)"
    by (simp only: rl)
  then show ?thesis unfolding a1_def .
qed

lemma fill_column_fields:
  "m_S (fill_column ref curr_pos al) =
     m_S (fill_rows ref curr_pos [0..<m_read_len al] (al\<lparr>m_Sd := splat (lanes al) (m_bias al)\<rparr>))"
  "m_Dc (fill_column ref curr_pos al) =
     m_Dc (fill_rows ref curr_pos [0..<m_read_len al] (al\<lparr>m_Sd := splat (lanes al) (m_bias al)\<rparr>))"
  "m_Ic (fill_column ref curr_pos al) =
     m_Ic (fill_rows ref curr_pos [0..<m_read_len al] (al\<lparr>m_Sd := splat (lanes al) (m_bias al)\<rparr>))"
  "m_trk (fill_column ref curr_pos al) =
     (let a2 = fill_rows ref curr_pos [0..<m_read_len al] (al\<lparr>m_Sd := splat (lanes al) (m_bias al)\<rparr>)
      in if END_TO_END al
         then track_cell (lanes a2) (m_read_len a2) (m_S a2 ! m_read_len al) curr_pos (m_trk a2)
         else m_trk a2)"
  by (simp_all add: fill_column_def fill_cell_finish_def Let_def)

lemma fill_column_vectors:
  assumes len: "length (m_S al) = m_read_len al + 1" "length (m_Dc al) = m_read_len al + 1"
      "length (m_Ic al) = m_read_len al + 1"
    and r: "1 \<le> r" "r \<le> m_read_len al"
  shows "m_Dc (fill_column ref curr_pos al) ! r =
           vmax (lanes al)
             (vsub (native al) (lanes al) (m_Dc (fill_column ref curr_pos al) ! (r - 1))
                (m_gap_extend_vec_ref al))
             (vsub (native al) (lanes al) (m_S (fill_column ref curr_pos al) ! (r - 1))
                (m_gap_open_extend_vec_ref al))"
    and "m_Ic (fill_column ref curr_pos al) ! r =
           vmax (lanes al)
             (vsub (native al) (lanes al) (m_Ic al ! r) (m_gap_extend_vec_rd al))
             (vsub (native al) (lanes al) (m_S al ! r) (m_gap_open_extend_vec_rd al))"
    and "m_S (fill_column ref curr_pos al) ! r =
           vmax (lanes al) (m_Ic (fill_column ref curr_pos al) ! r)
             (vmax (lanes al) (m_Dc (fill_column ref curr_pos al) ! r)
                (vadd (native al) (lanes al)
                   (if r = 1 then splat (lanes al) (m_bias al) else m_S al ! (r - 1))
                   (bonus_vec al ref r)))"
proof -
  define a1 where "a1 = al\<lparr>m_Sd := splat (lanes al) (m_bias al)\<rparr>"
  define a2 where "a2 = fill_rows ref curr_pos [0..<m_read_len al] a1"
  have bv: "bonus_vec a1 ref r = bonus_vec al ref r"
    by (simp add: bonus_vec_def Let_def a1_def)
  note R = fill_column_rows_done[OF len, of ref curr_pos, folded a1_def, folded a2_def,
      unfolded rows_done_def Let_def]
  have c: "config a2 = config a1" using R by blast
  note cf = config_fields[OF c]
  have f: "m_S (fill_column ref curr_pos al) = m_S a2" "m_Dc (fill_column ref curr_pos al) = m_Dc a2"
    "m_Ic (fill_column ref curr_pos al) = m_Ic a2"
    by (simp_all add: fill_column_fields a1_def a2_def)
  have rows: "m_Dc a2 ! r = vmax (lanes a1) (vsub (native a1) (lanes a1) (m_Dc a2 ! (r - 1)) (m_gap_extend_vec_ref a1))
                                (vsub (native a1) (lanes a1) (m_S a2 ! (r - 1)) (m_gap_open_extend_vec_ref a1)) \<and>
            m_Ic a2 ! r = vmax (lanes a1) (vsub (native a1) (lanes a1) (m_Ic a1 ! r) (m_gap_extend_vec_rd a1))
                                (vsub (native a1) (lanes a1) (m_S a1 ! r) (m_gap_open_extend_vec_rd a1)) \<and>
            m_S a2 ! r = vmax (lanes a1) (m_Ic a2 ! r)
                          (vmax (lanes a1) (m_Dc a2 ! r)
                             (vadd (native a1) (lanes a1) (if r = 1 then m_Sd a1 else m_S a1 ! (r - 1))
                                (bonus_vec a1 ref r)))"
    using R r by (simp add: a1_def)
  show "m_Dc (fill_column ref curr_pos al) ! r =
           vmax (lanes al)
             (vsub (native al) (lanes al) (m_Dc (fill_column ref curr_pos al) ! (r - 1))
                (m_gap_extend_vec_ref al))
             (vsub (native al) (lanes al) (m_S (fill_column ref curr_pos al) ! (r - 1))
                (m_gap_open_extend_vec_ref al))"
    using rows by (simp add: f a1_def)
  show "m_Ic (fill_column ref curr_pos al) ! r =
           vmax (lanes al)
             (vsub (native al) (lanes al) (m_Ic al ! r) (m_gap_extend_vec_rd al))
             (vsub (native al) (lanes al) (m_S al ! r) (m_gap_open_extend_vec_rd al))"
    using rows by (simp add: f a1_def)
  show "m_S (fill_column ref curr_pos al) ! r =
           vmax (lanes al) (m_Ic (fill_column ref curr_pos al) ! r)
             (vmax (lanes al) (m_Dc (fill_column ref curr_pos al) ! r)
                (vadd (native al) (lanes al)
                   (if r = 1 then splat (lanes al) (m_bias al) else m_S al ! (r - 1))
                   (bonus_vec al ref r)))"
    using rows bv by (simp add: f a1_def)
qed

lemma fill_column_tracker:
  assumes len: "length (m_S al) = m_read_len al + 1" "length (m_Dc al) = m_read_len al + 1"
      "length (m_Ic al) = m_read_len al + 1"
  shows "m_S (fill_column ref curr_pos al) ! 0 = m_S al ! 0"
    and "m_Dc (fill_column ref curr_pos al) ! 0 = m_Dc al ! 0"
    and "m_trk (fill_column ref curr_pos al) =
           (if END_TO_END al
            then track_cell (lanes al) (m_read_len al)
                   (m_S (fill_column ref curr_pos al) ! m_read_len al) curr_pos (m_trk al)
            else fold (\<lambda>r. track_cell (lanes al) (m_read_len al)
                              (m_S (fill_column ref curr_pos al) ! r) curr_pos)
                   [1..<m_read_len al + 1] (m_trk al))"
proof -
  define a1 where "a1 = al\<lparr>m_Sd := splat (lanes al) (m_bias al)\<rparr>"
  define a2 where "a2 = fill_rows ref curr_pos [0..<m_read_len al] a1"
  note R = fill_column_rows_done[OF len, of ref curr_pos, folded a1_def, folded a2_def,
      unfolded rows_done_def Let_def]
  have c: "config a2 = config a1" using R by blast
  note cf = config_fields[OF c]
  have f: "m_S (fill_column ref curr_pos al) = m_S a2" "m_Dc (fill_column ref curr_pos al) = m_Dc a2"
    "m_Ic (fill_column ref curr_pos al) = m_Ic a2"
    by (simp_all add: fill_column_fields a1_def a2_def)
  show "m_S (fill_column ref curr_pos al) ! 0 = m_S al ! 0"
    using R by (simp add: f a1_def)
  show "m_Dc (fill_column ref curr_pos al) ! 0 = m_Dc al ! 0"
    using R by (simp add: f a1_def)
  have t2: "m_trk a2 = (if END_TO_END a1 then m_trk a1
                    else fold (\<lambda>r. track_cell (lanes a1) (m_read_len a1) (m_S a2 ! r) curr_pos)
                           [1..<m_read_len al + 1] (m_trk a1))"
    using R by blast
  have t: "m_trk (fill_column ref curr_pos al) =
     (if END_TO_END al
         then track_cell (lanes a2) (m_read_len a2) (m_S a2 ! m_read_len al) curr_pos (m_trk a2)
         else m_trk a2)"
    by (simp add: fill_column_fields(4) Let_def a1_def a2_def)
  show "m_trk (fill_column ref curr_pos al) =
           (if END_TO_END al
            then track_cell (lanes al) (m_read_len al)
                   (m_S (fill_column ref curr_pos al) ! m_read_len al) curr_pos (m_trk al)
            else fold (\<lambda>r. track_cell (lanes al) (m_read_len al)
                              (m_S (fill_column ref curr_pos al) ! r) curr_pos)
                   [1..<m_read_len al + 1] (m_trk al))"
    using t2 by (simp add: t f cf a1_def)
qed

section \<open>The mode of an aligner\<close>





section \<open>Graph order\<close>














lemma group_begin_fields [simp]:
  "m_read_len (group_begin batch targets tlo tup b len aligns al) = m_read_len al"
  "lanes (group_begin batch targets tlo tup b len aligns al) = lanes al"
  by (simp_all add: group_begin_def Let_def)








lemma fill_rows_tsub:
  "m_target_subrange (fill_rows ref curr_pos rows al) = m_target_subrange al"
  by (induction rows arbitrary: al) (simp_all add: fill_cell_tsub)

lemma fill_column_tsub:
  "m_target_subrange (fill_column ref curr_pos al) = m_target_subrange al"
  by (simp add: fill_column_def fill_cell_finish_def Let_def fill_rows_tsub)















section \<open>The recurrence of a column\<close>

lemma to_native_id:
  assumes "lane_min nt \<le> x" "x \<le> lane_max nt"
  shows "to_native nt x = x"
proof (cases nt)
  case Int8
  then have "0 \<le> x + 128" "x + 128 < 256"
    using assms by (simp_all add: lane_min_def lane_max_def)
  then have "(x + 128) mod 256 = x + 128" by simp
  then show ?thesis using Int8 by (simp add: to_native_def)
next
  case Int16
  then have "0 \<le> x + 32768" "x + 32768 < 65536"
    using assms by (simp_all add: lane_min_def lane_max_def)
  then have "(x + 32768) mod 65536 = x + 32768" by simp
  then show ?thesis using Int16 by (simp add: to_native_def)
qed

lemma profile_lanes:
  assumes v: "profile_vectors al" and f: "profile_fits (native al) (m_prof al)" and k: "k < lanes al"
  shows "m_match_vec al ! k = int (match (m_prof al))"
    "m_mismatch_vec al ! k = - int (mismatch (m_prof al))"
    "m_ambig_vec al ! k = - int (ambig (m_prof al))"
    "m_gap_open_extend_vec_rd al ! k = int (read_gopen (m_prof al)) + int (read_gext (m_prof al))"
    "m_gap_extend_vec_rd al ! k = int (read_gext (m_prof al))"
    "m_gap_open_extend_vec_ref al ! k = int (ref_gopen (m_prof al)) + int (ref_gext (m_prof al))"
    "m_gap_extend_vec_ref al ! k = int (ref_gext (m_prof al))"
proof -
  note F = f[unfolded profile_fits_def]
  note V = v[unfolded profile_vectors_def Let_def]
  have lo: "lane_min (native al) < 0" and hi: "0 < lane_max (native al)"
    by (rule lane_bounds)+
  have b: "broadcast (native al) (lanes al) x ! k = to_native (native al) x" for x
    using k by (simp add: broadcast_def splat_def)
  show "m_match_vec al ! k = int (match (m_prof al))"
    using V F lo by (simp add: b to_native_id)
  show "m_mismatch_vec al ! k = - int (mismatch (m_prof al))"
    using V F hi by (simp add: b to_native_id)
  show "m_ambig_vec al ! k = - int (ambig (m_prof al))"
    using V F hi by (simp add: b to_native_id)
  show "m_gap_open_extend_vec_rd al ! k = int (read_gopen (m_prof al)) + int (read_gext (m_prof al))"
    using V F lo by (simp add: b to_native_id)
  show "m_gap_extend_vec_rd al ! k = int (read_gext (m_prof al))"
    using V F lo by (simp add: b to_native_id)
  show "m_gap_open_extend_vec_ref al ! k = int (ref_gopen (m_prof al)) + int (ref_gext (m_prof al))"
    using V F lo by (simp add: b to_native_id)
  show "m_gap_extend_vec_ref al ! k = int (ref_gext (m_prof al))"
    using V F lo by (simp add: b to_native_id)
qed

lemma bonus_vec_lane:
  assumes v: "profile_vectors al" and f: "profile_fits (native al) (m_prof al)" and k: "k < lanes al"
  shows "bonus_vec al ref r ! k = bonus (m_prof al) ref (m_packaged_reads al ! (r - 1) ! k)"
  using profile_lanes(1,2,3)[OF v f k] k
  by (simp add: bonus_vec_def bonus_def Let_def)

lemma fill_column_lengths:
  assumes len: "length (m_S al) = m_read_len al + 1" "length (m_Dc al) = m_read_len al + 1"
      "length (m_Ic al) = m_read_len al + 1"
  shows "length (m_S (fill_column ref curr_pos al)) = m_read_len al + 1"
    "length (m_Dc (fill_column ref curr_pos al)) = m_read_len al + 1"
    "length (m_Ic (fill_column ref curr_pos al)) = m_read_len al + 1"
proof -
  note R = fill_column_rows_done[OF len, of ref curr_pos, unfolded rows_done_def Let_def]
  show "length (m_S (fill_column ref curr_pos al)) = m_read_len al + 1"
    using R len by (simp add: fill_column_fields)
  show "length (m_Dc (fill_column ref curr_pos al)) = m_read_len al + 1"
    using R len by (simp add: fill_column_fields)
  show "length (m_Ic (fill_column ref curr_pos al)) = m_read_len al + 1"
    using R len by (simp add: fill_column_fields)
qed

text \<open>
  Claim C1, as amended.  The aligner is in a state that the constructor and \<open>set_scores\<close>
  leave and the walk keeps: the score vectors are the broadcast values of the profile and the
  columns have \<open>L + 1\<close> rows.  If the values of the profile fit the lane type, then in every
  column fill, for every row \<open>r\<close> from 1 to \<open>L\<close> and every lane \<open>k\<close>, the new column holds

  \<^item> \<open>D[r] = max (D[r - 1] - ref_gext) (S[r - 1] - (ref_gopen + ref_gext))\<close>, on the new
    column,
  \<^item> \<open>I[r] = max (I[r] - read_gext) (S[r] - (read_gopen + read_gext))\<close>, on the old column,
  \<^item> \<open>S[r] = max I[r] (max D[r] (S_diag + bonus))\<close>, where \<open>S_diag\<close> is row \<open>r - 1\<close> of
    the old column (the bias for the first row) and the bonus is as the specification says,

  each difference and sum saturated to the lane type; in local mode the score tracker has run
  on each of the rows \<open>1\<close> to \<open>L\<close> of the column in turn, in end-to-end mode on row \<open>L\<close>
  alone; and the state after the column is again such a state.
\<close>

theorem fill_column_recurrence:
  fixes al :: AlignerT and ref :: Base and curr_pos :: int
  defines "al' \<equiv> fill_column ref curr_pos al"
    and "nt \<equiv> native al" and "p \<equiv> m_prof al"
  assumes v: "profile_vectors al" and f: "profile_fits (native al) (m_prof al)"
    and len: "length (m_S al) = m_read_len al + 1" "length (m_Dc al) = m_read_len al + 1"
      "length (m_Ic al) = m_read_len al + 1"
    and r: "1 \<le> r" "r \<le> m_read_len al" and k: "k < lanes al"
  shows "m_Dc al' ! r ! k =
           max (sat nt (m_Dc al' ! (r - 1) ! k - int (ref_gext p)))
               (sat nt (m_S al' ! (r - 1) ! k - (int (ref_gopen p) + int (ref_gext p)))) \<and>
         m_Ic al' ! r ! k =
           max (sat nt (m_Ic al ! r ! k - int (read_gext p)))
               (sat nt (m_S al ! r ! k - (int (read_gopen p) + int (read_gext p)))) \<and>
         m_S al' ! r ! k =
           max (m_Ic al' ! r ! k)
             (max (m_Dc al' ! r ! k)
                (sat nt ((if r = 1 then m_bias al else m_S al ! (r - 1) ! k) +
                         bonus p ref (m_packaged_reads al ! (r - 1) ! k)))) \<and>
         m_trk al' =
           (if END_TO_END al
            then track_cell (lanes al) (m_read_len al) (m_S al' ! m_read_len al) curr_pos (m_trk al)
            else fold (\<lambda>r. track_cell (lanes al) (m_read_len al) (m_S al' ! r) curr_pos)
                   [1..<m_read_len al + 1] (m_trk al)) \<and>
         config al' = config al \<and> profile_vectors al' \<and>
         length (m_S al') = m_read_len al + 1 \<and> length (m_Dc al') = m_read_len al + 1 \<and>
         length (m_Ic al') = m_read_len al + 1"
proof -
  note V = fill_column_vectors[OF len r, of ref curr_pos, folded al'_def]
  note P = profile_lanes[OF v f k]
  have d: "m_Dc al' ! r ! k =
           max (sat nt (m_Dc al' ! (r - 1) ! k - int (ref_gext p)))
               (sat nt (m_S al' ! (r - 1) ! k - (int (ref_gopen p) + int (ref_gext p))))"
    using k P(6,7) by (subst V(1)) (simp add: nt_def p_def)
  have i: "m_Ic al' ! r ! k =
           max (sat nt (m_Ic al ! r ! k - int (read_gext p)))
               (sat nt (m_S al ! r ! k - (int (read_gopen p) + int (read_gext p))))"
    using k P(4,5) by (subst V(2)) (simp add: nt_def p_def)
  have s: "m_S al' ! r ! k =
           max (m_Ic al' ! r ! k)
             (max (m_Dc al' ! r ! k)
                (sat nt ((if r = 1 then m_bias al else m_S al ! (r - 1) ! k) +
                         bonus p ref (m_packaged_reads al ! (r - 1) ! k))))"
    using k bonus_vec_lane[OF v f k, of ref r] by (subst V(3)) (simp add: nt_def p_def)
  have t: "m_trk al' =
           (if END_TO_END al
            then track_cell (lanes al) (m_read_len al) (m_S al' ! m_read_len al) curr_pos (m_trk al)
            else fold (\<lambda>r. track_cell (lanes al) (m_read_len al) (m_S al' ! r) curr_pos)
                   [1..<m_read_len al + 1] (m_trk al))"
    using fill_column_tracker(3)[OF len, of ref curr_pos] by (simp only: al'_def)
  have c: "config al' = config al" by (simp add: al'_def)
  have pv: "profile_vectors al'"
    using v config_fields[OF c] by (simp add: profile_vectors_def Let_def)
  have l: "length (m_S al') = m_read_len al + 1" "length (m_Dc al') = m_read_len al + 1"
    "length (m_Ic al') = m_read_len al + 1"
    using fill_column_lengths[OF len, of ref curr_pos] by (simp_all only: al'_def)
  show ?thesis
    using d i s t c pv l by blast
qed

text \<open>Witness: the first column (reference base \<open>A\<close>) of an 8 bit local aligner with two
  lanes for the read \<open>AC\<close>, row 1, lane 0.\<close>

theorem fill_column_recurrence_witness:
  "profile_vectors (seeded_aligner Int8 2 False 2 (example_profile 2 2 3 1) [[A, C]]) \<and>
   profile_fits Int8 (example_profile 2 2 3 1) \<and>
   m_S (fill_column A 1 (seeded_aligner Int8 2 False 2 (example_profile 2 2 3 1) [[A, C]])) ! 1 ! 0 =
     max (m_Ic (fill_column A 1 (seeded_aligner Int8 2 False 2 (example_profile 2 2 3 1) [[A, C]])) ! 1 ! 0)
       (max (m_Dc (fill_column A 1 (seeded_aligner Int8 2 False 2 (example_profile 2 2 3 1) [[A, C]])) ! 1 ! 0)
          (sat Int8 (- 128 + bonus (example_profile 2 2 3 1) A A))) \<and>
   bonus (example_profile 2 2 3 1) A A = 2"
proof -
  let ?al = "seeded_aligner Int8 2 False 2 (example_profile 2 2 3 1) [[A, C]]"
  have v: "profile_vectors ?al" by code_simp
  have f: "profile_fits (native ?al) (m_prof ?al)" by code_simp
  have len: "length (m_S ?al) = m_read_len ?al + 1" "length (m_Dc ?al) = m_read_len ?al + 1"
    "length (m_Ic ?al) = m_read_len ?al + 1"
    by code_simp+
  have r: "(1::nat) \<le> 1" "1 \<le> m_read_len ?al" and k: "0 < lanes ?al"
    by code_simp+
  have e: "native ?al = Int8" "m_prof ?al = example_profile 2 2 3 1" "m_bias ?al = - 128"
    "m_packaged_reads ?al ! (1 - 1) ! 0 = A"
    by code_simp+
  have b: "bonus (example_profile 2 2 3 1) A A = 2" "profile_fits Int8 (example_profile 2 2 3 1)"
    by code_simp+
  note T = fill_column_recurrence[OF v f len r k, of A 1, unfolded e]
  from T have s: "m_S (fill_column A 1 ?al) ! 1 ! 0 =
     max (m_Ic (fill_column A 1 ?al) ! 1 ! 0)
       (max (m_Dc (fill_column A 1 ?al) ! 1 ! 0)
          (sat Int8 (- 128 + bonus (example_profile 2 2 3 1) A A)))"
    by (simp only: simp_thms if_True)
  show ?thesis
    using v b s by (intro conjI)
qed

text \<open>
  Claim C1 as stated fails when a value of the profile does not fit the lane type.  An 8 bit
  local aligner with mismatch penalty 200 (which the constructor accepts) holds \<open>56\<close> in
  its mismatch vector, the value that \<open>-200\<close> becomes in a signed 8 bit lane.  For the read
  \<open>A\<close> against the reference base \<open>C\<close> the cell is \<open>-128 + 56 = -72\<close>, where the
  recurrence with the mismatch penalty gives the floor \<open>-128\<close>: the mismatch is rewarded.
\<close>

theorem fill_column_recurrence_counterexample:
  "(case AlignerT_ctor Int8 1 False 1 (example_profile 2 200 3 1) of
      Inl e \<Rightarrow> False | Inr al \<Rightarrow> m_mismatch_vec al = [56]) \<and>
   m_packaged_reads (seeded_aligner Int8 1 False 1 (example_profile 2 200 3 1) [[A]]) ! 0 ! 0 = A \<and>
   m_S (fill_column C 1 (seeded_aligner Int8 1 False 1 (example_profile 2 200 3 1) [[A]])) ! 1 ! 0
     = - 72 \<and>
   max (m_Ic (fill_column C 1 (seeded_aligner Int8 1 False 1 (example_profile 2 200 3 1) [[A]])) ! 1 ! 0)
     (max (m_Dc (fill_column C 1 (seeded_aligner Int8 1 False 1 (example_profile 2 200 3 1) [[A]])) ! 1 ! 0)
        (sat Int8 (m_bias (seeded_aligner Int8 1 False 1 (example_profile 2 200 3 1) [[A]]) +
                   bonus (example_profile 2 200 3 1) C A)))
     = - 128"
  by code_simp

section \<open>The score tracker along the walk\<close>









lemma sat_range: "lane_min nt \<le> sat nt x" "sat nt x \<le> lane_max nt"
  using lane_bounds(1,2)[of nt] by (simp_all add: sat_def)

lemma in_range_vecs:
  "in_range nt n (vadd nt n a b)"
  "in_range nt n (vsub nt n a b)"
  "in_range nt n a \<Longrightarrow> in_range nt n b \<Longrightarrow> in_range nt n (vmax n a b)"
  "lane_min nt \<le> x \<Longrightarrow> x \<le> lane_max nt \<Longrightarrow> in_range nt n (splat n x)"
  by (auto simp: in_range_def sat_range)


lemma fill_column_row_in_range:
  assumes len: "length (m_S al) = m_read_len al + 1" "length (m_Dc al) = m_read_len al + 1"
      "length (m_Ic al) = m_read_len al + 1"
    and r: "1 \<le> r" "r \<le> m_read_len al"
  shows "in_range (native al) (lanes al) (m_S (fill_column ref curr_pos al) ! r)"
proof -
  note V = fill_column_vectors[OF len r, of ref curr_pos]
  have i: "in_range (native al) (lanes al) (m_Ic (fill_column ref curr_pos al) ! r)"
    by (subst V(2)) (intro in_range_vecs)
  have d: "in_range (native al) (lanes al) (m_Dc (fill_column ref curr_pos al) ! r)"
    by (subst V(1)) (intro in_range_vecs)
  show ?thesis
    by (subst V(3)) (intro in_range_vecs i d)
qed















lemma resize_vec_length [simp]: "length (resize_vec k d xs) = k"
  by (simp add: resize_vec_def)











lemma to_native_range: "lane_min nt \<le> to_native nt x" "to_native nt x \<le> lane_max nt"
  by (cases nt; simp add: to_native_def lane_min_def lane_max_def)+

lemma ctor_aligner_ok:
  assumes "AlignerT_ctor nt n ete rl p = Inr al"
  shows "aligner_ok al"
proof -
  obtain b where b: "get_bias nt ete rl (match p) (mismatch p) (read_gopen p) (read_gext p) = Inr b"
    using assms ctor_Inl_iff[of nt n ete rl p]
    by (cases "get_bias nt ete rl (match p) (mismatch p) (read_gopen p) (read_gext p)") auto
  have br: "lane_min nt \<le> b \<and> b \<le> lane_max nt"
    using b lane_bounds(1,2)[of nt] to_native_range[of nt]
    by (auto simp: get_bias_def split: if_splits)
  have "m_bias al = b \<and> native al = nt \<and> length (m_Dc al) = m_read_len al + 1"
    using assms b
    by (auto simp: AlignerT_ctor_def set_scores_def AlignerT_init_def set_correctness_tolerance_def
          split: sum.splits)
  then show ?thesis using br by (simp add: aligner_ok_def)
qed



lemma set_scores_aligner_ok:
  assumes "set_scores p al = Inr al'" "length (m_Dc al) = m_read_len al + 1"
  shows "aligner_ok al'"
proof -
  obtain b where b: "get_bias (native al) (END_TO_END al) (m_read_len al)
                       (match p) (mismatch p) (read_gopen p) (read_gext p) = Inr b"
    using assms(1) by (auto simp: set_scores_def split: sum.splits)
  have br: "lane_min (native al) \<le> b \<and> b \<le> lane_max (native al)"
    using b lane_bounds(1,2)[of "native al"] to_native_range[of "native al"]
    by (auto simp: get_bias_def split: if_splits)
  have "m_bias al' = b \<and> native al' = native al \<and> m_read_len al' = m_read_len al \<and>
        length (m_Dc al') = length (m_Dc al)"
    using assms(1) b
    by (auto simp: set_scores_def set_correctness_tolerance_def split: sum.splits)
  then show ?thesis using br assms(2) by (simp add: aligner_ok_def)
qed




section \<open>The correctness flag\<close>





















section \<open>The scores at the targets\<close>

lemma fill_cell_tsub_upd:
  "fill_cell read ref row curr_pos (al\<lparr>m_target_subrange := ts\<rparr>) =
     (fill_cell read ref row curr_pos al)\<lparr>m_target_subrange := ts\<rparr>"
  by (simp add: fill_cell_def fill_cell_finish_def Let_def)

lemma fill_rows_tsub_upd:
  "fill_rows ref curr_pos rows (al\<lparr>m_target_subrange := ts\<rparr>) =
     (fill_rows ref curr_pos rows al)\<lparr>m_target_subrange := ts\<rparr>"
  by (induction rows arbitrary: al) (simp_all add: fill_cell_tsub_upd)

lemma fill_column_tsub_upd:
  "fill_column ref curr_pos (al\<lparr>m_target_subrange := ts\<rparr>) =
     (fill_column ref curr_pos al)\<lparr>m_target_subrange := ts\<rparr>"
proof -
  have e: "al\<lparr>m_target_subrange := ts, m_Sd := v\<rparr> = al\<lparr>m_Sd := v, m_target_subrange := ts\<rparr>" for v
    by simp
  show ?thesis
    by (simp add: fill_column_def fill_cell_finish_def Let_def e fill_rows_tsub_upd)
qed

lemma fill_columns_trace_tsub:
  "fill_columns_trace bs curr_pos (al\<lparr>m_target_subrange := ts\<rparr>) = fill_columns_trace bs curr_pos al"
  by (induction bs arbitrary: curr_pos al) (simp_all add: fill_column_tsub_upd)

lemma target_after_simps:
  "target_after ete rl [] t = t"
  "target_after ete rl (c # tr) t =
     target_after ete rl tr (if fst c = pos t then t\<lparr>score := row_max ete rl (snd c) (idx t) (score t)\<rparr> else t)"
  "target_after ete rl (tr1 @ tr2) t = target_after ete rl tr2 (target_after ete rl tr1 t)"
  "pos (target_after ete rl tr t) = pos t"
  "idx (target_after ete rl tr t) = idx t"
  by (simp_all add: target_after_def cong: if_cong)

lemma record_targets_sem:
  "sorted (map pos tsub) \<Longrightarrow>
   \<forall>i. csp \<le> i \<and> i < length tsub \<longrightarrow> curr_pos \<le> pos (tsub ! i) \<Longrightarrow>
   record_targets ete rl s curr_pos csp tsub = Some r \<Longrightarrow>
   length (snd r) = length tsub \<and> csp \<le> fst r \<and> fst r < length tsub \<and>
   (\<forall>i<length tsub. snd r ! i =
      (if csp \<le> i \<and> pos (tsub ! i) = curr_pos
       then (tsub ! i)\<lparr>score := row_max ete rl s (idx (tsub ! i)) (score (tsub ! i))\<rparr>
       else tsub ! i)) \<and>
   (\<forall>i. csp \<le> i \<and> i < fst r \<longrightarrow> pos (tsub ! i) = curr_pos) \<and>
   (\<forall>i. fst r \<le> i \<and> i < length tsub \<longrightarrow> curr_pos < pos (tsub ! i))"
proof (induction ete rl s curr_pos csp tsub rule: record_targets.induct)
  case (1 ete rl s curr_pos csp tsub)
  have lt: "csp < length tsub"
    using "1.prems"(3) by (subst (asm) record_targets.simps) (simp split: if_splits)
  have mono: "pos (tsub ! i) \<le> pos (tsub ! j)" if "i \<le> j" "j < length tsub" for i j
    using "1.prems"(1) that by (simp add: sorted_iff_nth_mono)
  show ?case
  proof (cases "pos (tsub ! csp) = curr_pos")
    case False
    then have r: "r = (csp, tsub)"
      using "1.prems"(3) lt by (subst (asm) record_targets.simps) simp
    have gt: "curr_pos < pos (tsub ! csp)"
      using False "1.prems"(2) lt by (simp add: order.strict_iff_order)
    have ne: "curr_pos < pos (tsub ! i)" if "csp \<le> i" "i < length tsub" for i
      using mono[OF that] gt by simp
    show ?thesis using lt ne by (auto simp: r)
  next
    case True
    define u where "u = (tsub ! csp)\<lparr>score := row_max ete rl s (idx (tsub ! csp)) (score (tsub ! csp))\<rparr>"
    define tsub' where "tsub' = tsub[csp := u]"
    have rec: "record_targets ete rl s curr_pos (csp + 1) tsub' = Some r"
      using "1.prems"(3) lt True
      by (subst (asm) record_targets.simps) (simp add: tsub'_def u_def row_max_def)
    have mp: "map pos tsub' = map pos tsub"
      using lt by (simp add: tsub'_def u_def map_update list_update_same_conv)
    have s': "sorted (map pos tsub')" using "1.prems"(1) by (simp add: mp)
    have pe: "pos (tsub' ! i) = pos (tsub ! i)" if "i < length tsub" for i
      using that lt by (cases "i = csp") (simp_all add: tsub'_def u_def)
    have lb': "\<forall>i. csp + 1 \<le> i \<and> i < length tsub' \<longrightarrow> curr_pos \<le> pos (tsub' ! i)"
      using "1.prems"(2) pe by (simp add: tsub'_def)
    note IH = "1.IH"[OF lt True, folded row_max_def, folded u_def, folded tsub'_def, OF s' lb' rec]
    have l': "length tsub' = length tsub" by (simp add: tsub'_def)
    from IH have L: "length (snd r) = length tsub" and c1: "csp + 1 \<le> fst r"
      and c2: "fst r < length tsub"
      and nth: "\<And>i. i < length tsub \<Longrightarrow> snd r ! i =
          (if csp + 1 \<le> i \<and> pos (tsub' ! i) = curr_pos
           then (tsub' ! i)\<lparr>score := row_max ete rl s (idx (tsub' ! i)) (score (tsub' ! i))\<rparr>
           else tsub' ! i)"
      and mid: "\<And>i. csp + 1 \<le> i \<Longrightarrow> i < fst r \<Longrightarrow> pos (tsub' ! i) = curr_pos"
      and hi: "\<And>i. fst r \<le> i \<Longrightarrow> i < length tsub \<Longrightarrow> curr_pos < pos (tsub' ! i)"
      by (simp_all add: l')
    have n2: "snd r ! i =
        (if csp \<le> i \<and> pos (tsub ! i) = curr_pos
         then (tsub ! i)\<lparr>score := row_max ete rl s (idx (tsub ! i)) (score (tsub ! i))\<rparr>
         else tsub ! i)" if i: "i < length tsub" for i
    proof (cases "i = csp")
      case True
      then show ?thesis
        using nth[OF i] lt \<open>pos (tsub ! csp) = curr_pos\<close> by (simp add: tsub'_def u_def)
    next
      case False
      then have e: "tsub' ! i = tsub ! i" by (simp add: tsub'_def)
      have "csp + 1 \<le> i \<longleftrightarrow> csp \<le> i" using False by auto
      then show ?thesis using nth[OF i] by (simp add: e)
    qed
    have m2: "pos (tsub ! i) = curr_pos" if "csp \<le> i" "i < fst r" for i
    proof (cases "i = csp")
      case True
      then show ?thesis using \<open>pos (tsub ! csp) = curr_pos\<close> by simp
    next
      case False
      then have "csp + 1 \<le> i" using that by simp
      from mid[OF this that(2)] show ?thesis using pe[of i] that c2 by simp
    qed
    have h2: "curr_pos < pos (tsub ! i)" if "fst r \<le> i" "i < length tsub" for i
      using hi[OF that] pe[OF that(2)] by simp
    have c0: "csp \<le> fst r" using c1 by simp
    show ?thesis
      using L c0 c2 n2 m2 h2 by blast
  qed
qed

lemma skip_targets_sem:
  "sorted (map pos tsub) \<Longrightarrow>
   \<forall>i. i < csp \<and> i < length tsub \<longrightarrow> pos (tsub ! i) < p \<Longrightarrow>
   skip_targets tsub p csp = Some c \<Longrightarrow>
   c < length tsub \<and> (\<forall>i<c. pos (tsub ! i) < p) \<and>
   (\<forall>i. c \<le> i \<and> i < length tsub \<longrightarrow> p \<le> pos (tsub ! i))"
proof (induction tsub p csp rule: skip_targets.induct)
  case (1 tsub p csp)
  have lt: "csp < length tsub"
    using "1.prems"(3) by (subst (asm) skip_targets.simps) (simp split: if_splits)
  have mono: "pos (tsub ! i) \<le> pos (tsub ! j)" if "i \<le> j" "j < length tsub" for i j
    using "1.prems"(1) that by (simp add: sorted_iff_nth_mono)
  show ?case
  proof (cases "pos (tsub ! csp) < p")
    case False
    then have c: "c = csp"
      using "1.prems"(3) lt by (subst (asm) skip_targets.simps) simp
    have "p \<le> pos (tsub ! i)" if "csp \<le> i" "i < length tsub" for i
      using mono[OF that] False by simp
    then show ?thesis using lt "1.prems"(2) by (simp add: c)
  next
    case True
    have rec: "skip_targets tsub p (csp + 1) = Some c"
      using "1.prems"(3) lt True by (subst (asm) skip_targets.simps) simp
    have b: "\<forall>i. i < csp + 1 \<and> i < length tsub \<longrightarrow> pos (tsub ! i) < p"
    proof (intro allI impI)
      fix i assume i: "i < csp + 1 \<and> i < length tsub"
      show "pos (tsub ! i) < p"
        using i True "1.prems"(2) by (cases "i = csp") simp_all
    qed
    show ?thesis by (rule "1.IH"[OF lt True "1.prems"(1) b rec])
  qed
qed

lemma fill_columns_sem:
  "sorted (map pos (m_target_subrange al)) \<Longrightarrow>
   \<forall>i. i < csp \<and> i < length (m_target_subrange al) \<longrightarrow> pos (m_target_subrange al ! i) < curr_pos \<Longrightarrow>
   \<forall>i. csp \<le> i \<and> i < length (m_target_subrange al) \<longrightarrow> curr_pos \<le> pos (m_target_subrange al ! i) \<Longrightarrow>
   0 \<le> curr_pos \<Longrightarrow> curr_pos + int (length bs) < 2 ^ 64 \<Longrightarrow>
   fill_columns bs curr_pos csp al = Inr al2 \<Longrightarrow>
   m_target_subrange al2 =
     map (target_after (END_TO_END al) (m_read_len al) (fill_columns_trace bs curr_pos al))
       (m_target_subrange al)"
proof (induction bs arbitrary: curr_pos csp al)
  case Nil
  then show ?case by (simp add: target_after_simps)
next
  case (Cons b bs)
  define al1 where "al1 = fill_column b curr_pos al"
  define tsub where "tsub = m_target_subrange al"
  define stp where "stp = (\<lambda>t::target. if pos t = curr_pos
      then t\<lparr>score := row_max (END_TO_END al) (m_read_len al) (m_S al1) (idx t) (score t)\<rparr> else t)"
  have c1: "config al1 = config al" by (simp add: al1_def)
  note cf = config_fields[OF c1]
  have t1: "m_target_subrange al1 = tsub" by (simp add: al1_def tsub_def fill_column_tsub)
  obtain r where rt: "record_targets (END_TO_END al) (m_read_len al) (m_S al1) curr_pos csp tsub = Some r"
    and rest: "fill_columns bs (size_t (curr_pos + 1)) (fst r) (al1\<lparr>m_target_subrange := snd r\<rparr>) = Inr al2"
    using Cons.prems(6) by (auto simp: Let_def al1_def[symmetric] t1 cf split: option.splits)
  have srt: "sorted (map pos tsub)" using Cons.prems(1) by (simp add: tsub_def)
  have lb: "\<forall>i. csp \<le> i \<and> i < length tsub \<longrightarrow> curr_pos \<le> pos (tsub ! i)"
    using Cons.prems(3) by (simp add: tsub_def)
  have lo: "\<And>i. i < csp \<Longrightarrow> i < length tsub \<Longrightarrow> pos (tsub ! i) < curr_pos"
    using Cons.prems(2) by (simp add: tsub_def)
  from record_targets_sem[OF srt lb rt]
  have L: "length (snd r) = length tsub" and c0: "csp \<le> fst r" and c2: "fst r < length tsub"
    and nth: "\<And>i. i < length tsub \<Longrightarrow> snd r ! i =
        (if csp \<le> i \<and> pos (tsub ! i) = curr_pos
         then (tsub ! i)\<lparr>score := row_max (END_TO_END al) (m_read_len al) (m_S al1)
                                    (idx (tsub ! i)) (score (tsub ! i))\<rparr>
         else tsub ! i)"
    and mid: "\<And>i. csp \<le> i \<Longrightarrow> i < fst r \<Longrightarrow> pos (tsub ! i) = curr_pos"
    and hi: "\<And>i. fst r \<le> i \<Longrightarrow> i < length tsub \<Longrightarrow> curr_pos < pos (tsub ! i)"
    by simp_all
  have sr: "snd r = map stp tsub"
  proof (rule nth_equalityI)
    show "length (snd r) = length (map stp tsub)" by (simp add: L)
  next
    fix i assume "i < length (snd r)"
    then have i: "i < length tsub" by (simp add: L)
    show "snd r ! i = map stp tsub ! i"
    proof (cases "csp \<le> i")
      case True
      then show ?thesis using nth[OF i] i by (simp add: stp_def)
    next
      case False
      then have "pos (tsub ! i) < curr_pos" using lo i by simp
      then show ?thesis using nth[OF i] i False by (simp add: stp_def)
    qed
  qed
  have ps: "pos (stp t) = pos t" for t by (simp add: stp_def)
  have mp: "map pos (snd r) = map pos tsub" by (simp add: sr ps)
  have nx: "size_t (curr_pos + 1) = curr_pos + 1"
    using Cons.prems(4,5) by (simp add: size_t_def)
  define al' where "al' = al1\<lparr>m_target_subrange := snd r\<rparr>"
  have s': "sorted (map pos (m_target_subrange al'))" using srt by (simp add: al'_def mp)
  have pe: "pos (snd r ! i) = pos (tsub ! i)" if "i < length tsub" for i
    using that by (simp add: sr ps)
  have lo': "\<forall>i. i < fst r \<and> i < length (m_target_subrange al') \<longrightarrow>
               pos (m_target_subrange al' ! i) < curr_pos + 1"
  proof (intro allI impI)
    fix i assume i: "i < fst r \<and> i < length (m_target_subrange al')"
    then have il: "i < length tsub" by (simp add: al'_def L)
    have "pos (tsub ! i) \<le> curr_pos"
    proof (cases "csp \<le> i")
      case True
      then show ?thesis using mid i by simp
    next
      case False
      then show ?thesis using lo[of i] il by simp
    qed
    then show "pos (m_target_subrange al' ! i) < curr_pos + 1"
      using pe[OF il] by (simp add: al'_def)
  qed
  have hi': "\<forall>i. fst r \<le> i \<and> i < length (m_target_subrange al') \<longrightarrow>
               curr_pos + 1 \<le> pos (m_target_subrange al' ! i)"
  proof (intro allI impI)
    fix i assume i: "fst r \<le> i \<and> i < length (m_target_subrange al')"
    then have il: "i < length tsub" by (simp add: al'_def L)
    show "curr_pos + 1 \<le> pos (m_target_subrange al' ! i)"
      using hi[of i] i il pe[OF il] by (simp add: al'_def)
  qed
  have p0: "0 \<le> curr_pos + 1" using Cons.prems(4) by simp
  have p1: "curr_pos + 1 + int (length bs) < 2 ^ 64" using Cons.prems(5) by simp
  have c': "config al' = config al" by (simp add: al'_def c1)
  note cf' = config_fields[OF c']
  from Cons.IH[OF s' lo' hi' p0 p1 rest[folded al'_def, unfolded nx]]
  have "m_target_subrange al2 =
          map (target_after (END_TO_END al) (m_read_len al) (fill_columns_trace bs (curr_pos + 1) al1))
            (map stp tsub)"
    by (simp add: cf cf' al'_def fill_columns_trace_tsub sr)
  then show ?case
    by (simp add: target_after_simps al1_def[symmetric] nx tsub_def[symmetric] stp_def)
qed

lemma fill_columns_trace_range:
  "length (m_S al) = m_read_len al + 1 \<Longrightarrow> length (m_Dc al) = m_read_len al + 1 \<Longrightarrow>
   length (m_Ic al) = m_read_len al + 1 \<Longrightarrow>
   \<forall>c \<in> set (fill_columns_trace bs curr_pos al). \<forall>q. 1 \<le> q \<and> q \<le> m_read_len al \<longrightarrow>
      in_range (native al) (lanes al) (snd c ! q)"
proof (induction bs arbitrary: curr_pos al)
  case Nil
  then show ?case by simp
next
  case (Cons b bs)
  define al1 where "al1 = fill_column b curr_pos al"
  have c1: "config al1 = config al" by (simp add: al1_def)
  note cf = config_fields[OF c1]
  note l1 = fill_column_lengths[OF Cons.prems, of b curr_pos, folded al1_def, folded cf(4)]
  note IH = Cons.IH[OF l1, of "size_t (curr_pos + 1)", unfolded cf]
  have here: "\<forall>q. 1 \<le> q \<and> q \<le> m_read_len al \<longrightarrow> in_range (native al) (lanes al) (m_S al1 ! q)"
    using fill_column_row_in_range[OF Cons.prems, of _ b curr_pos] by (simp add: al1_def)
  show ?case
    using IH here by (simp add: al1_def[symmetric])
qed
end
